theory Spec2Isabelle
  imports Complex_Main "HOL-Library.AList" "HOL-Library.Word"
begin

unbundle bit_operations_syntax

section \<open>JavaScript values used by the pipeline\<close>

text \<open>
  The pipeline is TypeScript running on Node. The values that flow through it at run time
  are numbers (which include \<open>NaN\<close> and the two infinities), strings, and the object trees
  the XML library hands back. A finite number is kept as the exact rational it denotes.
  A literal beyond the range of a double becomes an infinity and one below the smallest
  double becomes \<open>0\<close>, as in the language; rounding inside the range and the sign of zero
  are not modelled, no property below depends on either.
\<close>

datatype jsnum = NaN | PosInf | NegInf | Fin rat

text \<open>Truthiness of a number: \<open>0\<close> and \<open>NaN\<close> are falsy.\<close>

fun numTruthy :: "jsnum \<Rightarrow> bool" where
  "numTruthy NaN = False"
| "numTruthy (Fin r) = (r \<noteq> 0)"
| "numTruthy _ = True"

fun negate :: "jsnum \<Rightarrow> jsnum" where
  "negate NaN = NaN"
| "negate PosInf = NegInf"
| "negate NegInf = PosInf"
| "negate (Fin r) = Fin (- r)"

subsection \<open>String to number coercion\<close>

text \<open>
  \<open>Number(text)\<close> follows the language's numeric-string grammar: surrounding white space
  is dropped, the empty string is \<open>0\<close>, then come \<open>Infinity\<close>, signed decimal literals with
  an optional fraction and exponent, and unsigned hexadecimal, octal and binary
  literals. Everything else is \<open>NaN\<close>.
\<close>

text \<open>
  The value of a numeric literal as a number: \<open>2 ^ 1024 - 2 ^ 970\<close> is the least
  magnitude that rounds to an infinity, \<open>1 / 2 ^ 1075\<close> the greatest that rounds to zero.
\<close>

definition toDouble :: "rat \<Rightarrow> jsnum" where
  "toDouble r =
     (if 2 ^ 1024 - 2 ^ 970 \<le> \<bar>r\<bar> then (if 0 < r then PosInf else NegInf)
      else if \<bar>r\<bar> \<le> 1 / 2 ^ 1075 then Fin 0
      else Fin r)"

definition isStrWhiteSpaceChar :: "char \<Rightarrow> bool" where
  "isStrWhiteSpaceChar c = ((of_char c :: nat) \<in> {9, 10, 11, 12, 13, 32, 160})"

definition trim :: "string \<Rightarrow> string" where
  "trim s = rev (dropWhile isStrWhiteSpaceChar (rev (dropWhile isStrWhiteSpaceChar s)))"

definition digitOf :: "char \<Rightarrow> nat option" where
  "digitOf c =
     (let n = (of_char c :: nat) in
      if 48 \<le> n \<and> n \<le> 57 then Some (n - 48)
      else if 97 \<le> n \<and> n \<le> 102 then Some (n - 87)
      else if 65 \<le> n \<and> n \<le> 70 then Some (n - 55)
      else None)"

fun digitsValue :: "nat \<Rightarrow> string \<Rightarrow> nat \<Rightarrow> nat option" where
  "digitsValue r [] acc = Some acc"
| "digitsValue r (c # cs) acc =
     (case digitOf c of
        None \<Rightarrow> None
      | Some d \<Rightarrow> if d < r then digitsValue r cs (acc * r + d) else None)"

definition radixLiteral :: "nat \<Rightarrow> string \<Rightarrow> jsnum" where
  "radixLiteral r ds =
     (if ds = [] then NaN
      else case digitsValue r ds 0 of None \<Rightarrow> NaN | Some n \<Rightarrow> toDouble (of_nat n))"

definition isDecimalDigit :: "char \<Rightarrow> bool" where
  "isDecimalDigit c = (48 \<le> (of_char c :: nat) \<and> (of_char c :: nat) \<le> 57)"

fun decDigits :: "string \<Rightarrow> nat \<Rightarrow> nat" where
  "decDigits [] acc = acc"
| "decDigits (c # cs) acc = decDigits cs (acc * 10 + (of_char c - 48))"

definition pow10 :: "int \<Rightarrow> rat" where
  "pow10 e = (if 0 \<le> e then 10 ^ nat e else 1 / 10 ^ nat (- e))"

definition exponentPart :: "string \<Rightarrow> int option" where
  "exponentPart s =
     (case s of
        [] \<Rightarrow> Some 0
      | c # r \<Rightarrow>
          if c = CHR ''e'' \<or> c = CHR ''E'' then
            (let neg = (case r of [] \<Rightarrow> False | d # _ \<Rightarrow> d = CHR ''-'');
                 ds = (case r of [] \<Rightarrow> []
                       | d # r' \<Rightarrow> if d = CHR ''-'' \<or> d = CHR ''+'' then r' else r)
             in if ds \<noteq> [] \<and> list_all isDecimalDigit ds
                then Some (if neg then - int (decDigits ds 0) else int (decDigits ds 0))
                else None)
          else None)"

definition unsignedDecimal :: "string \<Rightarrow> jsnum" where
  "unsignedDecimal s =
     (if s = ''Infinity'' then PosInf
      else
        let ip = takeWhile isDecimalDigit s;
            r1 = dropWhile isDecimalDigit s;
            dot = (case r1 of [] \<Rightarrow> False | c # _ \<Rightarrow> c = CHR ''.'');
            fp = (if dot then takeWhile isDecimalDigit (tl r1) else []);
            r2 = (if dot then dropWhile isDecimalDigit (tl r1) else r1)
        in if ip = [] \<and> fp = [] then NaN
           else case exponentPart r2 of
                  None \<Rightarrow> NaN
                | Some e \<Rightarrow> toDouble (of_nat (decDigits (ip @ fp) 0) * pow10 (e - int (length fp))))"

definition StringToNumber :: "string \<Rightarrow> jsnum" where
  "StringToNumber s =
     (let t = trim s in
      case t of
        [] \<Rightarrow> Fin 0
      | c # r \<Rightarrow>
          if c = CHR ''0'' \<and> r \<noteq> [] \<and> hd r \<in> {CHR ''x'', CHR ''X''} then radixLiteral 16 (tl r)
          else if c = CHR ''0'' \<and> r \<noteq> [] \<and> hd r \<in> {CHR ''o'', CHR ''O''} then radixLiteral 8 (tl r)
          else if c = CHR ''0'' \<and> r \<noteq> [] \<and> hd r \<in> {CHR ''b'', CHR ''B''} then radixLiteral 2 (tl r)
          else if c = CHR ''+'' then unsignedDecimal r
          else if c = CHR ''-'' then negate (unsignedDecimal r)
          else unsignedDecimal t)"

subsection \<open>Parsed XML\<close>

text \<open>
  The XML library (configured with \<open>explicitArray: false\<close>, \<open>mergeAttrs: true\<close>,
  \<open>trim: true\<close>) returns a tree in which an element with only text is a string (the empty
  string for an empty element), an element with children or attributes is an object
  keyed by tag name in order of first occurrence, and a tag that occurs several times
  under one parent is an array of its occurrences. A property that is not there reads as
  \<open>undefined\<close>, which is \<open>None\<close> here.
\<close>

datatype node = Text string | Obj "(string \<times> node) list" | Arr "node list"

type_synonym jsval = "node option"

fun getProp :: "node \<Rightarrow> string \<Rightarrow> jsval" where
  "getProp (Obj kvs) k = map_of kvs k"
| "getProp _ k = None"

fun truthy :: "jsval \<Rightarrow> bool" where
  "truthy None = False"
| "truthy (Some (Text s)) = (s \<noteq> [])"
| "truthy (Some _) = True"

fun joinComma :: "string list \<Rightarrow> string" where
  "joinComma [] = []"
| "joinComma [s] = s"
| "joinComma (s # ss) = s @ '','' @ joinComma ss"

fun toString :: "node \<Rightarrow> string" where
  "toString (Text s) = s"
| "toString (Obj kvs) = ''[object Object]''"
| "toString (Arr xs) = joinComma (map toString xs)"

definition Number :: "node \<Rightarrow> jsnum" where
  "Number v = StringToNumber (toString v)"

subsection \<open>Key normalisation (utils/object)\<close>

definition replaceDash :: "string \<Rightarrow> string" where
  "replaceDash k = map (\<lambda>c. if c = CHR ''-'' then CHR ''_'' else c) k"

text \<open>\<open>Object.fromEntries\<close>: a later entry with the same key replaces the value and keeps
  the place of the first.\<close>

definition fromEntries :: "(string \<times> node) list \<Rightarrow> (string \<times> node) list" where
  "fromEntries es = foldl (\<lambda>acc kv. AList.update (fst kv) (snd kv) acc) [] es"

fun normalizeKeys :: "node \<Rightarrow> node" where
  "normalizeKeys (Arr xs) = Arr (map normalizeKeys xs)"
| "normalizeKeys (Obj kvs) =
     Obj (fromEntries (map (\<lambda>kv. (replaceDash (fst kv), normalizeKeys (snd kv))) kvs))"
| "normalizeKeys (Text s) = Text s"

section \<open>Message parser (core/parser)\<close>

datatype KV6MessageType =
  ARRIVAL | DEPARTURE | ONROUTE | ONSTOP | INIT | END | DELAY | OFFROUTE | CANCEL

fun typeName :: "KV6MessageType \<Rightarrow> string" where
  "typeName ARRIVAL = ''ARRIVAL''"
| "typeName DEPARTURE = ''DEPARTURE''"
| "typeName ONROUTE = ''ONROUTE''"
| "typeName ONSTOP = ''ONSTOP''"
| "typeName INIT = ''INIT''"
| "typeName END = ''END''"
| "typeName DELAY = ''DELAY''"
| "typeName OFFROUTE = ''OFFROUTE''"
| "typeName CANCEL = ''CANCEL''"

text \<open>\<open>Object.values(KV6MessageType)\<close>: the members in declaration order.\<close>

definition KV6MessageType_values :: "KV6MessageType list" where
  "KV6MessageType_values =
     [ARRIVAL, DEPARTURE, ONROUTE, ONSTOP, INIT, END, DELAY, OFFROUTE, CANCEL]"

text \<open>A thrown value, and a \<open>Date\<close> object, kept as the argument it was constructed from.\<close>

datatype exn = Exn string

datatype jsdate = NewDate jsval

text \<open>
  The normalised event. The interface declares the identifying fields as strings; at run
  time they hold whatever the parsed message had under that key, so they are values of
  the parsed tree, \<open>None\<close> when the key was missing.
\<close>

record KV6Update =
  operator :: string
  type :: KV6MessageType
  journeyNumber :: jsval
  vehicleNumber :: jsval
  lineNumber :: jsval
  timestamp :: jsdate
  stopCode :: jsval
  punctuality :: "jsnum option"
  latitude :: "jsnum option"
  longitude :: "jsnum option"
  occupancy :: "jsnum option"

text \<open>
  The coordinate transformer (utils/coordinates) is not part of the sources at hand. It is a
  parameter of the parser: a function from two numbers to either an error object or a
  latitude/longitude pair.
\<close>

datatype conversion = ConvError string | Position jsnum jsnum

type_synonym transformer = "jsnum \<Rightarrow> jsnum \<Rightarrow> conversion"

text \<open>\<open>x ? Number(x) : undefined\<close>\<close>

fun numberIfTruthy :: "jsval \<Rightarrow> jsnum option" where
  "numberIfTruthy None = None"
| "numberIfTruthy (Some v) = (if truthy (Some v) then Some (Number v) else None)"

definition baseOf :: "node \<Rightarrow> KV6MessageType \<Rightarrow> string \<Rightarrow> KV6Update" where
  "baseOf rawMessage ty op =
     \<lparr> operator = op,
       type = ty,
       journeyNumber = getProp rawMessage ''journeynumber'',
       vehicleNumber = getProp rawMessage ''vehiclenumber'',
       lineNumber = getProp rawMessage ''lineplanningnumber'',
       timestamp = NewDate (getProp rawMessage ''timestamp''),
       stopCode = getProp rawMessage ''userstopcode'',
       punctuality = numberIfTruthy (getProp rawMessage ''punctuality''),
       latitude = None,
       longitude = None,
       occupancy = None \<rparr>"

definition normalizeMessage :: "transformer \<Rightarrow> node \<Rightarrow> KV6MessageType \<Rightarrow> string \<Rightarrow> KV6Update" where
  "normalizeMessage convertRdToWgs84 rawMessage ty op =
     (let base = baseOf rawMessage ty op in
      case (getProp rawMessage ''rd_x'', getProp rawMessage ''rd_y'') of
        (Some x, Some y) \<Rightarrow>
          (case convertRdToWgs84 (Number x) (Number y) of
             ConvError e \<Rightarrow> base
           | Position la lo \<Rightarrow>
               base \<lparr> latitude := Some la,
                      longitude := Some lo,
                      occupancy := numberIfTruthy (getProp rawMessage ''occupancy'') \<rparr>)
      | _ \<Rightarrow> base)"

text \<open>The root may or may not sit inside the push envelope.\<close>

definition kv6Of :: "node \<Rightarrow> jsval" where
  "kv6Of parsed =
     (let inEnvelope = (case getProp parsed ''VV_TM_PUSH'' of
                          None \<Rightarrow> None
                        | Some envelope \<Rightarrow> getProp envelope ''KV6posinfo'')
      in if truthy inEnvelope then inEnvelope
         else if truthy (getProp parsed ''KV6posinfo'') then getProp parsed ''KV6posinfo''
         else None)"

text \<open>\<open>Array.isArray(v) ? v : [v]\<close>\<close>

fun messagesOf :: "node \<Rightarrow> node list" where
  "messagesOf (Arr xs) = xs"
| "messagesOf v = [v]"

definition eventsOfType :: "transformer \<Rightarrow> node \<Rightarrow> string \<Rightarrow> KV6MessageType \<Rightarrow> KV6Update list" where
  "eventsOfType conv kv6 op ty =
     (case getProp kv6 (typeName ty) of
        None \<Rightarrow> []
      | Some v \<Rightarrow>
          if truthy (Some v)
          then map (\<lambda>msg. normalizeMessage conv (normalizeKeys msg) ty op) (messagesOf v)
          else [])"

text \<open>What \<open>parseXml\<close> does once the XML library has returned \<open>parsed\<close>.\<close>

definition eventsOfParsed :: "transformer \<Rightarrow> node \<Rightarrow> string \<Rightarrow> KV6Update list" where
  "eventsOfParsed conv parsed op =
     (case kv6Of parsed of
        None \<Rightarrow> []
      | Some kv6 \<Rightarrow> concat (map (eventsOfType conv kv6 op) KV6MessageType_values))"

text \<open>
  The body of the \<open>try\<close> block. The XML library is a parameter: it rejects the text, or
  returns \<open>null\<close>, on which the first property read throws, or returns a tree.
\<close>

definition parseXmlBody ::
  "(string \<Rightarrow> exn + node option) \<Rightarrow> transformer \<Rightarrow> string \<Rightarrow> string \<Rightarrow> exn + KV6Update list" where
  "parseXmlBody xmlParser conv xmlContent op =
     (if xmlContent = [] \<or> trim xmlContent = [] then Inr []
      else case xmlParser xmlContent of
             Inl e \<Rightarrow> Inl e
           | Inr None \<Rightarrow> Inl (Exn ''TypeError'')
           | Inr (Some parsed) \<Rightarrow> Inr (eventsOfParsed conv parsed op))"

definition parseXml ::
  "(string \<Rightarrow> exn + node option) \<Rightarrow> transformer \<Rightarrow> string \<Rightarrow> string \<Rightarrow> KV6Update list" where
  "parseXml xmlParser conv xmlContent op =
     (case parseXmlBody xmlParser conv xmlContent op of
        Inl e \<Rightarrow> []
      | Inr results \<Rightarrow> results)"

text \<open>
  The elements that \<open>parseXml\<close> converts: \<open>msg\<close> is an occurrence of the tag of \<open>ty\<close>
  under the root of \<open>parsed\<close>, and the value under that tag is truthy.
\<close>

definition isConvertedMessage :: "node \<Rightarrow> KV6MessageType \<Rightarrow> node \<Rightarrow> bool" where
  "isConvertedMessage parsed ty msg =
     (case kv6Of parsed of
        None \<Rightarrow> False
      | Some kv6 \<Rightarrow>
          (case getProp kv6 (typeName ty) of
             None \<Rightarrow> False
           | Some v \<Rightarrow> truthy (Some v) \<and> msg \<in> set (messagesOf v)))"

section \<open>Vehicle state store (tui/state)\<close>

text \<open>
  The fields of a stored state that share a name with an event field carry the prefix
  \<open>st_\<close>. \<open>lineName\<close> and \<open>stopName\<close> are declared by the interface and written by
  nothing in the store.
\<close>

record VehicleState =
  st_vehicleNumber :: node
  st_lineNumber :: node
  lineName :: "string option"
  status :: KV6MessageType
  st_stopCode :: jsval
  stopName :: "string option"
  st_latitude :: "jsnum option"
  st_longitude :: "jsnum option"
  st_occupancy :: "jsnum option"
  lastUpdated :: jsdate
  st_punctuality :: "jsnum option"

text \<open>
  The store is a \<open>Map\<close>, which iterates in insertion order: an association list. Keys are
  compared by value here. The language compares keys that are objects by reference, so the
  model is exact for vehicle numbers that are text, which is what the event interface
  declares (\<open>vehicleNumber: string\<close>); the statements about the store are made for such
  events.
\<close>

type_synonym store = "(node \<times> VehicleState) list"

text \<open>\<open>x && {field: x}\<close> spread into the new state: a falsy \<open>x\<close> contributes nothing.\<close>

definition orStored :: "jsval \<Rightarrow> jsval \<Rightarrow> jsval" where
  "orStored new old = (if truthy new then new else old)"

definition numOrStored :: "jsnum option \<Rightarrow> jsnum option \<Rightarrow> jsnum option" where
  "numOrStored new old =
     (case new of None \<Rightarrow> old | Some n \<Rightarrow> if numTruthy n then Some n else old)"

text \<open>\<open>x !== undefined && {field: x}\<close>\<close>

definition definedOrStored :: "jsnum option \<Rightarrow> jsnum option \<Rightarrow> jsnum option" where
  "definedOrStored new old = (case new of None \<Rightarrow> old | Some n \<Rightarrow> Some n)"

definition seedState :: "node \<Rightarrow> KV6Update \<Rightarrow> VehicleState" where
  "seedState vn upd =
     \<lparr> st_vehicleNumber = vn,
       st_lineNumber = (case lineNumber upd of
                          None \<Rightarrow> Text ''Unknown''
                        | Some l \<Rightarrow> if truthy (Some l) then l else Text ''Unknown''),
       lineName = None,
       status = type upd,
       st_stopCode = None,
       stopName = None,
       st_latitude = None,
       st_longitude = None,
       st_occupancy = None,
       lastUpdated = timestamp upd,
       st_punctuality = None \<rparr>"

definition mergeState :: "VehicleState \<Rightarrow> KV6Update \<Rightarrow> VehicleState" where
  "mergeState existingState upd =
     existingState
       \<lparr> status := type upd,
         lastUpdated := timestamp upd,
         st_lineNumber := (case lineNumber upd of
                             None \<Rightarrow> st_lineNumber existingState
                           | Some l \<Rightarrow> if truthy (Some l) then l else st_lineNumber existingState),
         st_stopCode := orStored (stopCode upd) (st_stopCode existingState),
         st_latitude := numOrStored (latitude upd) (st_latitude existingState),
         st_longitude := numOrStored (longitude upd) (st_longitude existingState),
         st_occupancy := definedOrStored (occupancy upd) (st_occupancy existingState),
         st_punctuality := definedOrStored (punctuality upd) (st_punctuality existingState) \<rparr>"

definition updateVehicle :: "store \<Rightarrow> KV6Update \<Rightarrow> store" where
  "updateVehicle vehicles upd =
     (case vehicleNumber upd of
        None \<Rightarrow> vehicles
      | Some vn \<Rightarrow>
          if \<not> truthy (Some vn) then vehicles
          else
            let existingState = (case map_of vehicles vn of
                                   Some s \<Rightarrow> s
                                 | None \<Rightarrow> seedState vn upd)
            in AList.update vn (mergeState existingState upd) vehicles)"

text \<open>\<open>counts[k] || 0\<close>\<close>

fun orZero :: "nat option \<Rightarrow> nat" where
  "orZero None = 0"
| "orZero (Some n) = n"

definition activeStatuses :: "KV6MessageType list" where
  "activeStatuses = [ARRIVAL, DEPARTURE, ONROUTE, ONSTOP]"

definition countVehicle :: "(string \<times> nat) list \<Rightarrow> VehicleState \<Rightarrow> (string \<times> nat) list" where
  "countVehicle counts vehicle =
     (let counts1 = (if status vehicle \<in> set activeStatuses
                     then AList.update ''active'' (orZero (map_of counts ''active'') + 1) counts
                     else counts);
          k = typeName (status vehicle)
      in AList.update k (orZero (map_of counts1 k) + 1) counts1)"

definition getStatusCounts :: "store \<Rightarrow> (string \<times> nat) list" where
  "getStatusCounts vehicles =
     foldl countVehicle [(''total'', length vehicles), (''active'', 0)] (map snd vehicles)"

text \<open>
  The sweep. \<open>getTime\<close> of a date is a parameter; it has no value when the date is
  invalid, and the age is then \<open>NaN\<close>, which is greater than nothing.
\<close>

definition isStale :: "(jsdate \<Rightarrow> rat option) \<Rightarrow> rat \<Rightarrow> rat \<Rightarrow> VehicleState \<Rightarrow> bool" where
  "isStale getTime nowMs maxAgeMinutes state =
     (case getTime (lastUpdated state) of
        None \<Rightarrow> False
      | Some t \<Rightarrow> (nowMs - t) / (1000 * 60) > maxAgeMinutes)"

definition cleanupStaleVehicles ::
  "(jsdate \<Rightarrow> rat option) \<Rightarrow> rat \<Rightarrow> rat \<Rightarrow> store \<Rightarrow> store" where
  "cleanupStaleVehicles getTime nowMs maxAgeMinutes vehicles =
     filter (\<lambda>entry. \<not> isStale getTime nowMs maxAgeMinutes (snd entry)) vehicles"

text \<open>
  The states the store can be in: it starts empty and changes only through updates, with
  events whose vehicle number is text or missing, and through sweeps.
\<close>

fun hasTextId :: "KV6Update \<Rightarrow> bool" where
  "hasTextId upd =
     (case vehicleNumber upd of None \<Rightarrow> True | Some (Text v) \<Rightarrow> True | Some _ \<Rightarrow> False)"

inductive reachable :: "store \<Rightarrow> bool" where
  reachable_empty: "reachable []"
| reachable_update:
    "reachable vehicles \<Longrightarrow> hasTextId upd \<Longrightarrow> reachable (updateVehicle vehicles upd)"
| reachable_cleanup:
    "reachable vehicles \<Longrightarrow> reachable (cleanupStaleVehicles getTime nowMs maxAge vehicles)"

section \<open>Event distributor (core/event-bus) and the streaming sink (api/server)\<close>

text \<open>
  \<open>TypedEventEmitter\<close> forwards to the runtime's event emitter, which keeps the listeners
  of an event name in registration order and, on \<open>emit\<close>, calls them one after the other
  in the caller's stack; it has no handler around the calls, so a listener that throws
  ends the \<open>emit\<close> with that exception. A listener is a function of the payload and the
  world; it returns the world it leaves behind and the exception, if it threw.
\<close>

type_synonym ('d, 'w) listener = "'d \<Rightarrow> 'w \<Rightarrow> 'w \<times> exn option"

definition on :: "('d, 'w) listener list \<Rightarrow> ('d, 'w) listener \<Rightarrow> ('d, 'w) listener list" where
  "on listeners l = listeners @ [l]"

fun callListeners :: "('d, 'w) listener list \<Rightarrow> 'd \<Rightarrow> 'w \<Rightarrow> 'w \<times> exn option" where
  "callListeners [] d w = (w, None)"
| "callListeners (l # ls) d w =
     (case l d w of
        (w', Some e) \<Rightarrow> (w', Some e)
      | (w', None) \<Rightarrow> callListeners ls d w')"

text \<open>\<open>emit\<close> returns whether the event had listeners, or ends with the exception.\<close>

definition emit :: "('d, 'w) listener list \<Rightarrow> 'd \<Rightarrow> 'w \<Rightarrow> 'w \<times> (exn + bool)" where
  "emit listeners d w =
     (case callListeners listeners d w of
        (w', Some e) \<Rightarrow> (w', Inl e)
      | (w', None) \<Rightarrow> (w', Inr (listeners \<noteq> [])))"

text \<open>
  The world after every listener of a list has been called with the payload, one after the
  other in the order of the list, and whether none of them throws on the way.
\<close>

definition deliverAll :: "('d, 'w) listener list \<Rightarrow> 'd \<Rightarrow> 'w \<Rightarrow> 'w" where
  "deliverAll listeners d w = foldl (\<lambda>w' l. fst (l d w')) w listeners"

fun noneRaises :: "('d, 'w) listener list \<Rightarrow> 'd \<Rightarrow> 'w \<Rightarrow> bool" where
  "noneRaises [] d w = True"
| "noneRaises (l # ls) d w = (snd (l d w) = None \<and> noneRaises ls d (fst (l d w)))"

text \<open>
  Two listeners to observe deliveries with: the world is the list of deliveries made so
  far, as pairs of subscriber and payload. The first returns, the second throws after
  taking the payload.
\<close>

definition recording :: "nat \<Rightarrow> ('d, (nat \<times> 'd) list) listener" where
  "recording i d w = (w @ [(i, d)], None)"

definition raising :: "nat \<Rightarrow> exn \<Rightarrow> ('d, (nat \<times> 'd) list) listener" where
  "raising i e d w = (w @ [(i, d)], Some e)"

text \<open>
  A streaming client: its identity, and whether a \<open>write\<close> of a given chunk goes through
  or throws. The world of a broadcast is the list of chunks written, with their client.
\<close>

record sseClient =
  clientId :: nat
  accepts :: "string \<Rightarrow> bool"

record sseMessage =
  msgType :: "string option"
  msgData :: string

definition eventLine :: "string \<Rightarrow> string" where
  "eventLine t = ''event: '' @ t @ [CHR 0x0A]"

definition dataLine :: "string \<Rightarrow> string" where
  "dataLine j = ''data: '' @ j @ [CHR 0x0A, CHR 0x0A]"

fun writeChunks :: "sseClient \<Rightarrow> string list \<Rightarrow> (nat \<times> string) list \<Rightarrow> (nat \<times> string) list \<times> bool" where
  "writeChunks c [] written = (written, True)"
| "writeChunks c (chunk # chunks) written =
     (if accepts c chunk then writeChunks c chunks (written @ [(clientId c, chunk)])
      else (written, False))"

definition chunksOf :: "sseMessage \<Rightarrow> string list" where
  "chunksOf message =
     (case msgType message of
        None \<Rightarrow> [dataLine (msgData message)]
      | Some t \<Rightarrow> if t = [] then [dataLine (msgData message)]
                  else [eventLine t, dataLine (msgData message)])"

text \<open>The loop over the clients: each client has its own \<open>try\<close>.\<close>

fun sendToAll ::
  "sseClient list \<Rightarrow> sseMessage \<Rightarrow> (nat \<times> string) list \<Rightarrow> (nat \<times> string) list \<times> nat list" where
  "sendToAll [] message written = (written, [])"
| "sendToAll (c # cs) message written =
     (case writeChunks c (chunksOf message) written of
        (written', True) \<Rightarrow> sendToAll cs message written'
      | (written', False) \<Rightarrow>
          (case sendToAll cs message written' of
             (written'', disconnected) \<Rightarrow> (written'', clientId c # disconnected)))"

definition broadcastSSE ::
  "sseClient list \<Rightarrow> sseMessage \<Rightarrow> (nat \<times> string) list \<Rightarrow> sseClient list \<times> (nat \<times> string) list" where
  "broadcastSSE sseClients message written =
     (if sseClients = [] then (sseClients, written)
      else case sendToAll sseClients message written of
             (written', disconnectedClients) \<Rightarrow>
               (filter (\<lambda>c. clientId c \<notin> set disconnectedClients) sseClients, written'))"

section \<open>Content decoder (core/connector)\<close>

type_synonym buffer = "8 word list"

text \<open>
  Decompression and UTF-8 decoding belong to the runtime and are parameters. The two
  decompressors throw on input they cannot read; decoding to text never throws.
\<close>

record runtime =
  gunzipAsync :: "buffer \<Rightarrow> exn + buffer"
  inflateAsync :: "buffer \<Rightarrow> exn + buffer"
  utf8 :: "buffer \<Rightarrow> string"

text \<open>\<open>latin1\<close> gives every byte the character of the same code; \<open>ascii\<close> clears the top
  bit first.\<close>

definition latin1 :: "buffer \<Rightarrow> string" where
  "latin1 bs = map (\<lambda>b. char_of (unat b)) bs"

definition ascii :: "buffer \<Rightarrow> string" where
  "ascii bs = map (\<lambda>b. char_of (unat (b AND 0x7F))) bs"

text \<open>Reading a buffer by index gives \<open>undefined\<close> beyond its end.\<close>

definition byteAt :: "buffer \<Rightarrow> nat \<Rightarrow> 8 word option" where
  "byteAt b i = (if i < length b then Some (b ! i) else None)"

fun indexFrom :: "string \<Rightarrow> string \<Rightarrow> nat \<Rightarrow> int" where
  "indexFrom p [] i = (if p = [] then int i else - 1)"
| "indexFrom p (c # cs) i =
     (if take (length p) (c # cs) = p then int i else indexFrom p cs (Suc i))"

definition indexOf :: "string \<Rightarrow> string \<Rightarrow> int" where
  "indexOf s p = indexFrom p s 0"

definition includes_str :: "string \<Rightarrow> string \<Rightarrow> bool" where
  "includes_str s p = (0 \<le> indexOf s p)"

definition substring :: "string \<Rightarrow> int \<Rightarrow> string" where
  "substring s i = drop (nat i) s"

definition looksLikeXml :: "string \<Rightarrow> bool" where
  "looksLikeXml s =
     (includes_str s ''<?xml'' \<or> includes_str s ''<VV_TM_PUSH'' \<or> includes_str s ''<KV6posinfo'')"

text \<open>The blind inflate: its own \<open>try\<close> swallows the decompressor's exception.\<close>

definition blindInflate :: "runtime \<Rightarrow> buffer \<Rightarrow> string option" where
  "blindInflate rt buf =
     (case inflateAsync rt buf of
        Inl e \<Rightarrow> None
      | Inr decompressed \<Rightarrow>
          if looksLikeXml (utf8 rt decompressed) then Some (utf8 rt decompressed) else None)"

fun firstXmlLike :: "string list \<Rightarrow> string option" where
  "firstXmlLike [] = None"
| "firstXmlLike (decoded # rest) =
     (if looksLikeXml decoded then Some decoded else firstXmlLike rest)"

definition tryEncodings :: "runtime \<Rightarrow> buffer \<Rightarrow> string option" where
  "tryEncodings rt buf = firstXmlLike [utf8 rt buf, latin1 buf, ascii buf]"

text \<open>The last two stages: the scan of the single-byte text, and that text as it is.\<close>

definition fallbackExtract :: "buffer \<Rightarrow> string" where
  "fallbackExtract buf =
     (let latin1Str = latin1 buf;
          xmlStartIndex = max (indexOf latin1Str ''<?xml'')
                            (max (indexOf latin1Str ''<VV_TM_PUSH'')
                                 (indexOf latin1Str ''<KV6posinfo''))
      in if 0 \<le> xmlStartIndex then substring latin1Str xmlStartIndex else latin1 buf)"

definition hasGzipHeader :: "buffer \<Rightarrow> bool" where
  "hasGzipHeader buf =
     (let header = take 3 buf in byteAt header 0 = Some 0x1F \<and> byteAt header 1 = Some 0x8B)"

definition hasZlibHeader :: "buffer \<Rightarrow> bool" where
  "hasZlibHeader buf =
     (let header = take 3 buf
      in byteAt header 0 = Some 0x78 \<and>
         (byteAt header 1 = Some 0x01 \<or> byteAt header 1 = Some 0x9C \<or> byteAt header 1 = Some 0xDA))"

definition decodeContentBody :: "runtime \<Rightarrow> buffer \<Rightarrow> exn + string" where
  "decodeContentBody rt buf =
     (if hasGzipHeader buf then
        (case gunzipAsync rt buf of Inl e \<Rightarrow> Inl e | Inr decompressed \<Rightarrow> Inr (utf8 rt decompressed))
      else if hasZlibHeader buf then
        (case inflateAsync rt buf of Inl e \<Rightarrow> Inl e | Inr decompressed \<Rightarrow> Inr (utf8 rt decompressed))
      else case blindInflate rt buf of
             Some xml \<Rightarrow> Inr xml
           | None \<Rightarrow>
               (case tryEncodings rt buf of
                  Some decoded \<Rightarrow> Inr decoded
                | None \<Rightarrow> Inr (fallbackExtract buf)))"

text \<open>The whole function: the outer handler turns any exception into the single-byte text.\<close>

definition decodeContent :: "runtime \<Rightarrow> buffer \<Rightarrow> exn + string" where
  "decodeContent rt buf =
     (case decodeContentBody rt buf of
        Inl e \<Rightarrow> Inr (latin1 buf)
      | Inr text \<Rightarrow> Inr text)"

text \<open>A buffer gets to the scan when no earlier stage has returned or thrown.\<close>

definition reachesFallback :: "runtime \<Rightarrow> buffer \<Rightarrow> bool" where
  "reachesFallback rt buf =
     (\<not> hasGzipHeader buf \<and> \<not> hasZlibHeader buf \<and>
      blindInflate rt buf = None \<and> tryEncodings rt buf = None)"

section \<open>The specification's notions\<close>

text \<open>
  The earliest position in a text at which one of the recognized markers starts, as the
  specification words the scan.
\<close>

definition markers :: "string list" where
  "markers = [''<?xml'', ''<VV_TM_PUSH'', ''<KV6posinfo'']"

fun spec_earliestMarkerFrom :: "string \<Rightarrow> nat \<Rightarrow> nat option" where
  "spec_earliestMarkerFrom [] i = None"
| "spec_earliestMarkerFrom (c # cs) i =
     (if list_ex (\<lambda>m. take (length m) (c # cs) = m) markers then Some i
      else spec_earliestMarkerFrom cs (Suc i))"

definition spec_earliestMarker :: "string \<Rightarrow> nat option" where
  "spec_earliestMarker s = spec_earliestMarkerFrom s 0"







text \<open>The occupancy scale of the specification.\<close>

fun spec_occupancyInRange :: "jsnum option \<Rightarrow> bool" where
  "spec_occupancyInRange None = True"
| "spec_occupancyInRange (Some (Fin r)) = (0 \<le> r \<and> r \<le> 5)"
| "spec_occupancyInRange (Some _) = False"

section \<open>Stand-ins for the parameters, for concrete runs\<close>

text \<open>
  Modelled from the spec: utils/coordinates (\<open>convertRdToWgs84\<close>) is missing from the
  sources. The specification says that the projection's origin is transformed to a known
  reference position and that a coordinate far outside the domain is answered with an
  error. This stand-in knows exactly these two facts: it answers the origin
  (155000, 463000) with the reference position of the published method and everything
  else with an error. It is used only to run the parser on concrete messages; every
  general theorem below holds for an arbitrary transformer.
\<close>

definition originTransformer :: transformer where
  "originTransformer x y =
     (if x = Fin 155000 \<and> y = Fin 463000
      then Position (Fin (5215517440 / 100000000)) (Fin (538720621 / 100000000))
      else ConvError ''outside the valid domain'')"

text \<open>An XML library run that returns the given tree.\<close>

definition parserReturning :: "node \<Rightarrow> string \<Rightarrow> exn + node option" where
  "parserReturning parsed xmlContent = Inr (Some parsed)"

section \<open>Sample data\<close>

definition sampleEvent :: "string \<Rightarrow> KV6MessageType \<Rightarrow> KV6Update" where
  "sampleEvent vn ty =
     \<lparr> operator = ''ARR'', type = ty, journeyNumber = Some (Text ''1001''),
       vehicleNumber = Some (Text vn), lineNumber = Some (Text ''L1''),
       timestamp = NewDate (Some (Text ''2024-01-01T12:00:00+01:00'')),
       stopCode = None, punctuality = None, latitude = None, longitude = None,
       occupancy = None \<rparr>"

definition fourVehicles :: store where
  "fourVehicles =
     foldl updateVehicle []
       [sampleEvent ''101'' ARRIVAL, sampleEvent ''102'' INIT,
        sampleEvent ''103'' DEPARTURE, sampleEvent ''104'' END]"

definition eventA :: KV6Update where
  "eventA = (sampleEvent ''101'' ARRIVAL)
     \<lparr> stopCode := Some (Text ''X''), latitude := Some (Fin 52), longitude := Some (Fin 5) \<rparr>"

definition eventB :: KV6Update where
  "eventB = (sampleEvent ''101'' DEPARTURE)
     \<lparr> timestamp := NewDate (Some (Text ''2024-01-01T12:05:00+01:00'')) \<rparr>"

definition eventFalsy :: KV6Update where
  "eventFalsy = (sampleEvent ''101'' DEPARTURE)
     \<lparr> stopCode := Some (Text ''''), latitude := Some (Fin 0) \<rparr>"


definition eventNoId :: KV6Update where
  "eventNoId = (sampleEvent '''' ARRIVAL) \<lparr> vehicleNumber := None, occupancy := Some (Fin 3) \<rparr>"

text \<open>Messages as the XML library returns them, and their place in a document.\<close>

definition sampleMessage :: "(string \<times> node) list \<Rightarrow> node" where
  "sampleMessage extra =
     Obj ([(''lineplanningnumber'', Text ''L1''), (''journeynumber'', Text ''1001''),
           (''userstopcode'', Text ''X''), (''timestamp'', Text ''2024-01-01T12:00:00+01:00''),
           (''vehiclenumber'', Text ''101'')] @ extra)"

definition msgBadPunctuality :: node where
  "msgBadPunctuality = sampleMessage [(''punctuality'', Text ''abc'')]"

definition msgOutside :: node where
  "msgOutside =
     sampleMessage [(''punctuality'', Text ''-30''), (''rd-x'', Text ''999999''),
                    (''rd-y'', Text ''999999''), (''occupancy'', Text ''3'')]"

definition msgCrowded :: node where
  "msgCrowded =
     sampleMessage [(''rd-x'', Text ''155000''), (''rd-y'', Text ''463000''),
                    (''occupancy'', Text ''9'')]"

definition msgOccupancyOnly :: node where
  "msgOccupancyOnly = sampleMessage [(''occupancy'', Text ''3'')]"

definition envelope :: "KV6MessageType \<Rightarrow> node \<Rightarrow> node" where
  "envelope ty msg = Obj [(''VV_TM_PUSH'', Obj [(''KV6posinfo'', Obj [(typeName ty, msg)])])]"

text \<open>A text for the stand-in XML library, which returns its tree for any text.\<close>

definition someXml :: string where
  "someXml = ''<VV_TM_PUSH><KV6posinfo><ONROUTE/></KV6posinfo></VV_TM_PUSH>''"





text \<open>Streaming clients whose writes all go through or all throw, and a message.\<close>

definition goodClient :: "nat \<Rightarrow> sseClient" where
  "goodClient i = \<lparr> clientId = i, accepts = (\<lambda>chunk. True) \<rparr>"

definition brokenClient :: "nat \<Rightarrow> sseClient" where
  "brokenClient i = \<lparr> clientId = i, accepts = (\<lambda>chunk. False) \<rparr>"

definition statusMessage :: sseMessage where
  "statusMessage = \<lparr> msgType = Some ''status_update'', msgData = ''{}'' \<rparr>"

section \<open>Properties of the vehicle state store\<close>

lemma typeName_inj: "typeName a = typeName b \<longleftrightarrow> a = b"
  by (cases a; cases b; simp)

lemma typeName_not_total: "typeName ty \<noteq> ''total''"
  by (cases ty; simp)

lemma typeName_not_active: "typeName ty \<noteq> ''active''"
  by (cases ty; simp)

lemma countVehicle_total: "map_of (countVehicle c v) ''total'' = map_of c ''total''"
  using typeName_not_total [of "status v"]
  by (auto simp add: countVehicle_def Let_def update_conv')

lemma countVehicle_active:
  "map_of (countVehicle c v) ''active'' =
     (if status v \<in> set activeStatuses then Some (orZero (map_of c ''active'') + 1)
      else map_of c ''active'')"
  using typeName_not_active [of "status v"]
  by (auto simp add: countVehicle_def Let_def update_conv')

lemma countVehicle_type:
  "map_of (countVehicle c v) (typeName ty) =
     (if status v = ty then Some (orZero (map_of c (typeName ty)) + 1)
      else map_of c (typeName ty))"
  using typeName_not_active [of ty]
  by (auto simp add: countVehicle_def Let_def update_conv' typeName_inj)

lemma countVehicle_keys:
  "fst ` set (countVehicle c v) =
     fst ` set c \<union> {typeName (status v)} \<union> (if status v \<in> set activeStatuses then {''active''} else {})"
  by (auto simp add: countVehicle_def Let_def dom_update)

lemma foldl_count_total:
  "map_of (foldl countVehicle c vs) ''total'' = map_of c ''total''"
  by (induction vs arbitrary: c) (simp_all add: countVehicle_total)

lemma foldl_count_active:
  "map_of c ''active'' = Some a \<Longrightarrow>
   map_of (foldl countVehicle c vs) ''active'' =
     Some (a + length (filter (\<lambda>v. status v \<in> set activeStatuses) vs))"
  by (induction vs arbitrary: c a) (simp_all add: countVehicle_active)

lemma foldl_count_type:
  "map_of (foldl countVehicle c vs) (typeName ty) =
     (if filter (\<lambda>v. status v = ty) vs = [] then map_of c (typeName ty)
      else Some (orZero (map_of c (typeName ty)) + length (filter (\<lambda>v. status v = ty) vs)))"
  by (induction vs arbitrary: c) (simp_all add: countVehicle_type)

lemma foldl_count_keys:
  "''active'' \<in> fst ` set c \<Longrightarrow>
   fst ` set (foldl countVehicle c vs) = fst ` set c \<union> typeName ` status ` set vs"
  by (induction vs arbitrary: c) (auto simp add: countVehicle_keys)


lemma reachable_distinct: "reachable vehicles \<Longrightarrow> distinct (map fst vehicles)"
proof (induction rule: reachable.induct)
  case reachable_empty
  show ?case by simp
next
  case (reachable_update vehicles upd)
  then show ?case
    by (simp add: updateVehicle_def distinct_update Let_def split: option.split)
next
  case (reachable_cleanup vehicles getTime nowMs maxAge)
  then show ?case
    by (simp add: cleanupStaleVehicles_def distinct_map_filter)
qed

lemma getStatusCounts_total:
  "map_of (getStatusCounts vehicles) ''total'' = Some (length vehicles)"
  by (simp add: getStatusCounts_def foldl_count_total)

lemma getStatusCounts_active:
  "map_of (getStatusCounts vehicles) ''active'' =
     Some (length (filter (\<lambda>entry. status (snd entry) \<in> set activeStatuses) vehicles))"
  by (simp add: getStatusCounts_def foldl_count_active filter_map comp_def)

lemma getStatusCounts_type:
  "map_of (getStatusCounts vehicles) (typeName ty) =
     (if ty \<in> status ` snd ` set vehicles
      then Some (length (filter (\<lambda>entry. status (snd entry) = ty) vehicles))
      else None)"
proof -
  have "(filter (\<lambda>v. status v = ty) (map snd vehicles) = []) \<longleftrightarrow> ty \<notin> status ` snd ` set vehicles"
    by (auto simp add: filter_empty_conv)
  moreover have "length (filter (\<lambda>v. status v = ty) (map snd vehicles)) =
      length (filter (\<lambda>entry. status (snd entry) = ty) vehicles)"
    by (simp add: filter_map comp_def)
  ultimately show ?thesis
    using typeName_not_total [of ty] typeName_not_active [of ty]
    by (simp add: getStatusCounts_def foldl_count_type)
qed

lemma getStatusCounts_keys:
  "fst ` set (getStatusCounts vehicles) =
     {''total'', ''active''} \<union> typeName ` status ` snd ` set vehicles"
  by (simp add: getStatusCounts_def foldl_count_keys image_image)

lemma update_fresh: "k \<notin> fst ` set al \<Longrightarrow> AList.update k v al = al @ [(k, v)]"
  by (induction al) auto

lemma status_mergeState: "status (mergeState s upd) = type upd"
  by (simp add: mergeState_def)

lemma updateVehicle_fresh:
  assumes "vehicleNumber upd = Some vn" "truthy (Some vn)" "vn \<notin> fst ` set vehicles"
  shows "updateVehicle vehicles upd = vehicles @ [(vn, mergeState (seedState vn upd) upd)]"
proof -
  have "map_of vehicles vn = None"
    using assms(3) by (simp add: map_of_eq_None_iff)
  then show ?thesis
    using assms by (simp add: updateVehicle_def update_fresh)
qed

lemma four_inserts:
  assumes t: "type e1 = ARRIVAL" "type e2 = INIT" "type e3 = DEPARTURE" "type e4 = END"
    and v: "vehicleNumber e1 = Some (Text v1)" "vehicleNumber e2 = Some (Text v2)"
           "vehicleNumber e3 = Some (Text v3)" "vehicleNumber e4 = Some (Text v4)"
    and ne: "v1 \<noteq> []" "v2 \<noteq> []" "v3 \<noteq> []" "v4 \<noteq> []"
    and d: "distinct [v1, v2, v3, v4]"
  shows "map (\<lambda>entry. (fst entry, status (snd entry))) (foldl updateVehicle [] [e1, e2, e3, e4]) =
           [(Text v1, ARRIVAL), (Text v2, INIT), (Text v3, DEPARTURE), (Text v4, END)]"
proof -
  have s1: "updateVehicle [] e1 = [(Text v1, mergeState (seedState (Text v1) e1) e1)]"
    using updateVehicle_fresh [of e1 "Text v1" "[]"] v ne by simp
  have s2: "updateVehicle (updateVehicle [] e1) e2 =
      [(Text v1, mergeState (seedState (Text v1) e1) e1),
       (Text v2, mergeState (seedState (Text v2) e2) e2)]"
    unfolding s1
    using updateVehicle_fresh [of e2 "Text v2" "[(Text v1, mergeState (seedState (Text v1) e1) e1)]"] v ne d
    by auto
  have s3: "updateVehicle (updateVehicle (updateVehicle [] e1) e2) e3 =
      [(Text v1, mergeState (seedState (Text v1) e1) e1),
       (Text v2, mergeState (seedState (Text v2) e2) e2),
       (Text v3, mergeState (seedState (Text v3) e3) e3)]"
    unfolding s2
    using updateVehicle_fresh [of e3 "Text v3"
        "[(Text v1, mergeState (seedState (Text v1) e1) e1),
          (Text v2, mergeState (seedState (Text v2) e2) e2)]"] v ne d
    by auto
  have s4: "updateVehicle (updateVehicle (updateVehicle (updateVehicle [] e1) e2) e3) e4 =
      [(Text v1, mergeState (seedState (Text v1) e1) e1),
       (Text v2, mergeState (seedState (Text v2) e2) e2),
       (Text v3, mergeState (seedState (Text v3) e3) e3),
       (Text v4, mergeState (seedState (Text v4) e4) e4)]"
    unfolding s3
    using updateVehicle_fresh [of e4 "Text v4"
        "[(Text v1, mergeState (seedState (Text v1) e1) e1),
          (Text v2, mergeState (seedState (Text v2) e2) e2),
          (Text v3, mergeState (seedState (Text v3) e3) e3)]"] v ne d
    by auto
  show ?thesis
    by (simp add: s4 status_mergeState t)
qed

lemma counts_of_statuses:
  assumes "map (\<lambda>entry. (fst entry, status (snd entry))) vehicles =
           [(k1, ARRIVAL), (k2, INIT), (k3, DEPARTURE), (k4, END)]"
  shows "map_of (getStatusCounts vehicles) ''active'' = Some 2 \<and>
         map_of (getStatusCounts vehicles) ''total'' = Some 4"
proof -
  have m: "map (\<lambda>entry. status (snd entry)) vehicles = [ARRIVAL, INIT, DEPARTURE, END]"
    using arg_cong [OF assms, of "map snd"] by (simp add: comp_def)
  have l: "length vehicles = 4"
    using arg_cong [OF assms, of length] by simp
  have "length (filter (\<lambda>entry. status (snd entry) \<in> set activeStatuses) vehicles) =
        length (filter (\<lambda>ty. ty \<in> set activeStatuses) (map (\<lambda>entry. status (snd entry)) vehicles))"
    by (simp add: comp_def)
  also have "\<dots> = 2"
    unfolding m by (simp add: activeStatuses_def)
  finally show ?thesis
    using l by (simp add: getStatusCounts_active getStatusCounts_total)
qed


lemma map_of_updateVehicle:
  assumes "vehicleNumber upd = Some vn" "truthy (Some vn)" "map_of vehicles vn = Some old"
  shows "map_of (updateVehicle vehicles upd) = (map_of vehicles)(vn \<mapsto> mergeState old upd)"
  using assms by (simp add: updateVehicle_def update_conv')

lemma storeA: "updateVehicle [] eventA = [(Text ''101'', mergeState (seedState (Text ''101'') eventA) eventA)]"
  by (simp add: updateVehicle_def eventA_def sampleEvent_def)

text \<open>
  C1, as stated: on an update for a vehicle id the store already holds, every field present
  on the event overwrites the stored field. This fails for a field that is present with a
  falsy value: an event whose stop code is the empty text and whose latitude is \<open>0\<close>
  leaves the stored stop code \<open>X\<close> and the stored latitude \<open>52\<close> in place.
\<close>

theorem updateVehicle_present_counterexample:
  "stopCode eventFalsy = Some (Text '''') \<and> latitude eventFalsy = Some (Fin 0) \<and>
   map (\<lambda>entry. (st_stopCode (snd entry), st_latitude (snd entry)))
     (updateVehicle (updateVehicle [] eventA) eventFalsy) = [(Some (Text ''X''), Some (Fin 52))]"
  by (simp add: updateVehicle_def eventA_def eventFalsy_def sampleEvent_def mergeState_def
      seedState_def orStored_def numOrStored_def definedOrStored_def)

text \<open>
  C1, amended: on an update for a vehicle id (a non-empty text) that the store already
  holds, status and last-updated are always set from the event; a field absent on the
  event leaves the stored value unchanged; stop code and line number overwrite the stored
  value when they are non-empty, latitude and longitude when they are a number other than
  \<open>0\<close> and \<open>NaN\<close>, occupancy and punctuality whenever they are present; a stop code,
  line number, latitude or longitude that is present but falsy leaves the stored value
  unchanged. The vehicle number of the entry and the entries of the other vehicles do not
  change.
\<close>

theorem updateVehicle_merge:
  assumes "vehicleNumber upd = Some (Text v)" and "v \<noteq> []"
    and "map_of vehicles (Text v) = Some old"
  shows "\<exists>new. map_of (updateVehicle vehicles upd) (Text v) = Some new \<and>
      status new = type upd \<and> lastUpdated new = timestamp upd \<and>
      (stopCode upd = None \<longrightarrow> st_stopCode new = st_stopCode old) \<and>
      (lineNumber upd = None \<longrightarrow> st_lineNumber new = st_lineNumber old) \<and>
      (latitude upd = None \<longrightarrow> st_latitude new = st_latitude old) \<and>
      (longitude upd = None \<longrightarrow> st_longitude new = st_longitude old) \<and>
      (occupancy upd = None \<longrightarrow> st_occupancy new = st_occupancy old) \<and>
      (punctuality upd = None \<longrightarrow> st_punctuality new = st_punctuality old) \<and>
      (truthy (stopCode upd) \<longrightarrow> st_stopCode new = stopCode upd) \<and>
      (truthy (lineNumber upd) \<longrightarrow> Some (st_lineNumber new) = lineNumber upd) \<and>
      (\<forall>n. latitude upd = Some n \<and> numTruthy n \<longrightarrow> st_latitude new = Some n) \<and>
      (\<forall>n. longitude upd = Some n \<and> numTruthy n \<longrightarrow> st_longitude new = Some n) \<and>
      (occupancy upd \<noteq> None \<longrightarrow> st_occupancy new = occupancy upd) \<and>
      (punctuality upd \<noteq> None \<longrightarrow> st_punctuality new = punctuality upd) \<and>
      (\<not> truthy (stopCode upd) \<longrightarrow> st_stopCode new = st_stopCode old) \<and>
      (\<not> truthy (lineNumber upd) \<longrightarrow> st_lineNumber new = st_lineNumber old) \<and>
      (\<forall>n. latitude upd = Some n \<and> \<not> numTruthy n \<longrightarrow> st_latitude new = st_latitude old) \<and>
      (\<forall>n. longitude upd = Some n \<and> \<not> numTruthy n \<longrightarrow> st_longitude new = st_longitude old) \<and>
      st_vehicleNumber new = st_vehicleNumber old \<and>
      (\<forall>k. k \<noteq> Text v \<longrightarrow> map_of (updateVehicle vehicles upd) k = map_of vehicles k)"
  using map_of_updateVehicle [of upd "Text v" vehicles old] assms
  by (auto simp add: mergeState_def orStored_def numOrStored_def definedOrStored_def
      split: option.splits)

text \<open>
  The run of the specification's test: event A sets the stop code \<open>X\<close>, event B for the
  same vehicle has none; afterwards the stop code is still \<open>X\<close> and status and
  last-updated are those of B.
\<close>

theorem updateVehicle_merge_witness:
  "vehicleNumber eventB = Some (Text ''101'') \<and> ''101'' \<noteq> [] \<and>
   stopCode eventB = None \<and>
   (\<exists>new. map_of (updateVehicle (updateVehicle [] eventA) eventB) (Text ''101'') = Some new \<and>
      status new = DEPARTURE \<and>
      lastUpdated new = NewDate (Some (Text ''2024-01-01T12:05:00+01:00'')) \<and>
      st_stopCode new = Some (Text ''X''))"
proof -
  have v: "vehicleNumber eventB = Some (Text ''101'')"
    by (simp add: eventB_def sampleEvent_def)
  have t: "''101'' \<noteq> []" by simp
  have m: "map_of (updateVehicle [] eventA) (Text ''101'') =
      Some (mergeState (seedState (Text ''101'') eventA) eventA)"
    by (simp add: storeA)
  have s: "stopCode eventB = None" "type eventB = DEPARTURE"
    "timestamp eventB = NewDate (Some (Text ''2024-01-01T12:05:00+01:00''))"
    by (simp_all add: eventB_def sampleEvent_def)
  have o: "st_stopCode (mergeState (seedState (Text ''101'') eventA) eventA) = Some (Text ''X'')"
    by (simp add: mergeState_def seedState_def orStored_def eventA_def sampleEvent_def)
  have "\<exists>new. map_of (updateVehicle (updateVehicle [] eventA) eventB) (Text ''101'') = Some new \<and>
      status new = type eventB \<and> lastUpdated new = timestamp eventB \<and>
      (stopCode eventB = None \<longrightarrow>
         st_stopCode new = st_stopCode (mergeState (seedState (Text ''101'') eventA) eventA))"
    using updateVehicle_merge [OF v t m]
    by (elim exE conjE) (rule exI, intro conjI; assumption)
  then show ?thesis using v s o by simp
qed

text \<open>
  C9: in every reachable state of the store there is one entry per vehicle id, and
  \<open>getStatusCounts\<close> returns the number of entries under \<open>total\<close>, the number of entries
  whose status is ARRIVAL, DEPARTURE, ONROUTE or ONSTOP under \<open>active\<close>, and for every
  status that some entry has the number of entries with that status under its name, with
  no other key. In particular, after four vehicles with the statuses ARRIVAL, INIT,
  DEPARTURE and END have been put into the empty store, \<open>active\<close> is 2 and \<open>total\<close> is 4.
\<close>

theorem getStatusCounts_counts:
  "(reachable vehicles \<longrightarrow>
     distinct (map fst vehicles) \<and>
     map_of (getStatusCounts vehicles) ''total'' = Some (length vehicles) \<and>
     map_of (getStatusCounts vehicles) ''active'' =
       Some (length (filter (\<lambda>entry. status (snd entry) \<in> {ARRIVAL, DEPARTURE, ONROUTE, ONSTOP}) vehicles)) \<and>
     (\<forall>ty. map_of (getStatusCounts vehicles) (typeName ty) =
        (if ty \<in> status ` snd ` set vehicles
         then Some (length (filter (\<lambda>entry. status (snd entry) = ty) vehicles))
         else None)) \<and>
     fst ` set (getStatusCounts vehicles) =
       {''total'', ''active''} \<union> typeName ` status ` snd ` set vehicles) \<and>
   (type e1 = ARRIVAL \<and> type e2 = INIT \<and> type e3 = DEPARTURE \<and> type e4 = END \<and>
    vehicleNumber e1 = Some (Text v1) \<and> vehicleNumber e2 = Some (Text v2) \<and>
    vehicleNumber e3 = Some (Text v3) \<and> vehicleNumber e4 = Some (Text v4) \<and>
    v1 \<noteq> [] \<and> v2 \<noteq> [] \<and> v3 \<noteq> [] \<and> v4 \<noteq> [] \<and> distinct [v1, v2, v3, v4] \<longrightarrow>
    map_of (getStatusCounts (foldl updateVehicle [] [e1, e2, e3, e4])) ''active'' = Some 2 \<and>
    map_of (getStatusCounts (foldl updateVehicle [] [e1, e2, e3, e4])) ''total'' = Some 4)"
proof (intro conjI impI)
  assume r: "reachable vehicles"
  show "distinct (map fst vehicles)" using r by (rule reachable_distinct)
next
  show "map_of (getStatusCounts vehicles) ''total'' = Some (length vehicles)"
    by (rule getStatusCounts_total)
next
  show "map_of (getStatusCounts vehicles) ''active'' =
       Some (length (filter (\<lambda>entry. status (snd entry) \<in> {ARRIVAL, DEPARTURE, ONROUTE, ONSTOP}) vehicles))"
    using getStatusCounts_active [of vehicles] by (simp add: activeStatuses_def)
next
  show "\<forall>ty. map_of (getStatusCounts vehicles) (typeName ty) =
        (if ty \<in> status ` snd ` set vehicles
         then Some (length (filter (\<lambda>entry. status (snd entry) = ty) vehicles))
         else None)"
    using getStatusCounts_type [of vehicles] by blast
next
  show "fst ` set (getStatusCounts vehicles) =
       {''total'', ''active''} \<union> typeName ` status ` snd ` set vehicles"
    by (rule getStatusCounts_keys)
next
  assume h: "type e1 = ARRIVAL \<and> type e2 = INIT \<and> type e3 = DEPARTURE \<and> type e4 = END \<and>
    vehicleNumber e1 = Some (Text v1) \<and> vehicleNumber e2 = Some (Text v2) \<and>
    vehicleNumber e3 = Some (Text v3) \<and> vehicleNumber e4 = Some (Text v4) \<and>
    v1 \<noteq> [] \<and> v2 \<noteq> [] \<and> v3 \<noteq> [] \<and> v4 \<noteq> [] \<and> distinct [v1, v2, v3, v4]"
  then have "map (\<lambda>entry. (fst entry, status (snd entry))) (foldl updateVehicle [] [e1, e2, e3, e4]) =
           [(Text v1, ARRIVAL), (Text v2, INIT), (Text v3, DEPARTURE), (Text v4, END)]"
    by (intro four_inserts) simp_all
  from counts_of_statuses [OF this]
  show "map_of (getStatusCounts (foldl updateVehicle [] [e1, e2, e3, e4])) ''active'' = Some 2"
    and "map_of (getStatusCounts (foldl updateVehicle [] [e1, e2, e3, e4])) ''total'' = Some 4"
    by simp_all
qed

theorem getStatusCounts_counts_witness:
  "reachable fourVehicles \<and> distinct (map fst fourVehicles) \<and>
   map_of (getStatusCounts fourVehicles) ''active'' = Some 2 \<and>
   map_of (getStatusCounts fourVehicles) ''total'' = Some 4"
proof -
  have r: "reachable fourVehicles"
    by (simp add: fourVehicles_def reachable.intros sampleEvent_def)
  note t = getStatusCounts_counts [of fourVehicles "sampleEvent ''101'' ARRIVAL"
        "sampleEvent ''102'' INIT" "sampleEvent ''103'' DEPARTURE" "sampleEvent ''104'' END"
        "''101''" "''102''" "''103''" "''104''"]
  have d: "distinct (map fst fourVehicles)"
    using t r by blast
  have h: "type (sampleEvent ''101'' ARRIVAL) = ARRIVAL \<and> type (sampleEvent ''102'' INIT) = INIT \<and>
      type (sampleEvent ''103'' DEPARTURE) = DEPARTURE \<and> type (sampleEvent ''104'' END) = END \<and>
      vehicleNumber (sampleEvent ''101'' ARRIVAL) = Some (Text ''101'') \<and>
      vehicleNumber (sampleEvent ''102'' INIT) = Some (Text ''102'') \<and>
      vehicleNumber (sampleEvent ''103'' DEPARTURE) = Some (Text ''103'') \<and>
      vehicleNumber (sampleEvent ''104'' END) = Some (Text ''104'') \<and>
      ''101'' \<noteq> [] \<and> ''102'' \<noteq> [] \<and> ''103'' \<noteq> [] \<and> ''104'' \<noteq> [] \<and>
      distinct [''101'', ''102'', ''103'', ''104'']"
    by (simp add: sampleEvent_def)
  have c: "map_of (getStatusCounts fourVehicles) ''active'' = Some 2 \<and>
      map_of (getStatusCounts fourVehicles) ''total'' = Some 4"
    unfolding fourVehicles_def using t h by blast
  show ?thesis using r d c by simp
qed

section \<open>Properties of the content decoder\<close>

text \<open>
  C6: for every byte buffer, whatever the decompressors and the UTF-8 decoder do with it,
  \<open>decodeContent\<close> ends without an exception and returns a string.
\<close>

theorem decodeContent_total: "\<exists>text. decodeContent rt buf = Inr text"
  by (simp add: decodeContent_def split: sum.split)

section \<open>Properties of the message parser\<close>

lemma trim_eq_Nil: "trim s = [] \<longleftrightarrow> (\<forall>c \<in> set s. isStrWhiteSpaceChar c)"
proof
  assume t: "trim s = []"
  show "\<forall>c \<in> set s. isStrWhiteSpaceChar c"
  proof (rule ccontr)
    assume "\<not> (\<forall>c \<in> set s. isStrWhiteSpaceChar c)"
    then have ne: "dropWhile isStrWhiteSpaceChar s \<noteq> []"
      by simp
    then have h: "\<not> isStrWhiteSpaceChar (hd (dropWhile isStrWhiteSpaceChar s))"
      by (rule hd_dropWhile)
    have "hd (dropWhile isStrWhiteSpaceChar s) \<in> set (rev (dropWhile isStrWhiteSpaceChar s))"
      using ne by simp
    moreover have "\<forall>c \<in> set (rev (dropWhile isStrWhiteSpaceChar s)). isStrWhiteSpaceChar c"
      using t unfolding trim_def by (simp only: rev_is_Nil_conv dropWhile_eq_Nil_conv)
    ultimately show False using h by blast
  qed
next
  assume "\<forall>c \<in> set s. isStrWhiteSpaceChar c"
  then show "trim s = []"
    unfolding trim_def by (auto dest: set_dropWhileD)
qed

lemma parseXml_parsed:
  assumes "trim xmlContent \<noteq> []" and "xmlParser xmlContent = Inr (Some parsed)"
  shows "parseXml xmlParser conv xmlContent op = eventsOfParsed conv parsed op"
proof -
  have "xmlContent \<noteq> []" using assms(1) by (auto simp add: trim_def)
  then show ?thesis using assms by (simp add: parseXml_def parseXmlBody_def)
qed

lemma set_KV6MessageType_values: "set KV6MessageType_values = UNIV"
proof -
  have "ty \<in> set KV6MessageType_values" for ty
    by (cases ty) (simp_all add: KV6MessageType_values_def)
  then show ?thesis by blast
qed

lemma in_eventsOfType:
  "e \<in> set (eventsOfType conv kv6 op ty) \<longleftrightarrow>
     (\<exists>v msg. getProp kv6 (typeName ty) = Some v \<and> truthy (Some v) \<and>
        msg \<in> set (messagesOf v) \<and> e = normalizeMessage conv (normalizeKeys msg) ty op)"
proof (cases "getProp kv6 (typeName ty)")
  case None
  then show ?thesis by (simp add: eventsOfType_def)
next
  case (Some v)
  then show ?thesis by (auto simp add: eventsOfType_def)
qed

lemma in_eventsOfParsed:
  "e \<in> set (eventsOfParsed conv parsed op) \<longleftrightarrow>
     (\<exists>ty msg. isConvertedMessage parsed ty msg \<and>
        e = normalizeMessage conv (normalizeKeys msg) ty op)"
proof (cases "kv6Of parsed")
  case None
  then show ?thesis by (simp add: eventsOfParsed_def isConvertedMessage_def)
next
  case (Some kv6)
  have "isConvertedMessage parsed ty msg \<longleftrightarrow>
      (\<exists>v. getProp kv6 (typeName ty) = Some v \<and> truthy (Some v) \<and> msg \<in> set (messagesOf v))"
    for ty msg
    using Some by (cases "getProp kv6 (typeName ty)") (simp_all add: isConvertedMessage_def)
  then show ?thesis
    using Some
    by (simp add: eventsOfParsed_def in_eventsOfType set_KV6MessageType_values) blast
qed


lemma parseXml_origin:
  assumes "e \<in> set (parseXml xmlParser conv xmlContent op)"
  shows "\<exists>parsed ty msg. xmlParser xmlContent = Inr (Some parsed) \<and>
           isConvertedMessage parsed ty msg \<and>
           e = normalizeMessage conv (normalizeKeys msg) ty op"
  using assms
  by (auto simp add: parseXml_def parseXmlBody_def in_eventsOfParsed
      split: if_splits sum.splits option.splits)

lemma normalizeMessage_no_position:
  "getProp raw ''rd_x'' = None \<or> getProp raw ''rd_y'' = None \<Longrightarrow>
   normalizeMessage conv raw ty op = baseOf raw ty op"
  by (auto simp add: normalizeMessage_def Let_def split: option.splits)

lemma normalizeMessage_error:
  "getProp raw ''rd_x'' = Some x \<Longrightarrow> getProp raw ''rd_y'' = Some y \<Longrightarrow>
   conv (Number x) (Number y) = ConvError err \<Longrightarrow>
   normalizeMessage conv raw ty op = baseOf raw ty op"
  by (simp add: normalizeMessage_def Let_def)

lemma normalizeMessage_position:
  "getProp raw ''rd_x'' = Some x \<Longrightarrow> getProp raw ''rd_y'' = Some y \<Longrightarrow>
   conv (Number x) (Number y) = Position la lo \<Longrightarrow>
   normalizeMessage conv raw ty op =
     (baseOf raw ty op) \<lparr> latitude := Some la, longitude := Some lo,
                           occupancy := numberIfTruthy (getProp raw ''occupancy'') \<rparr>"
  by (simp add: normalizeMessage_def Let_def)

lemma normalizeMessage_type: "type (normalizeMessage conv raw ty op) = ty"
  by (simp add: normalizeMessage_def baseOf_def Let_def split: option.splits conversion.splits)

lemma normalizeMessage_lat_lon:
  "latitude (normalizeMessage conv raw ty op) = None \<longleftrightarrow>
   longitude (normalizeMessage conv raw ty op) = None"
  by (simp add: normalizeMessage_def baseOf_def Let_def split: option.splits conversion.splits)

lemma normalizeMessage_occupancy:
  assumes "occupancy (normalizeMessage conv raw ty op) = Some n"
  shows "\<exists>x y la lo occ. getProp raw ''rd_x'' = Some x \<and> getProp raw ''rd_y'' = Some y \<and>
           conv (Number x) (Number y) = Position la lo \<and>
           latitude (normalizeMessage conv raw ty op) = Some la \<and>
           longitude (normalizeMessage conv raw ty op) = Some lo \<and>
           getProp raw ''occupancy'' = Some occ \<and> truthy (Some occ) \<and> n = Number occ"
proof (cases "getProp raw ''rd_x''")
  case None
  then show ?thesis using assms by (simp add: normalizeMessage_no_position baseOf_def)
next
  case x: (Some x)
  show ?thesis
  proof (cases "getProp raw ''rd_y''")
    case None
    then show ?thesis using assms by (simp add: normalizeMessage_no_position baseOf_def)
  next
    case y: (Some y)
    show ?thesis
    proof (cases "conv (Number x) (Number y)")
      case (ConvError err)
      then show ?thesis using assms x y by (simp add: normalizeMessage_error baseOf_def)
    next
      case (Position la lo)
      have e: "normalizeMessage conv raw ty op =
        (baseOf raw ty op) \<lparr> latitude := Some la, longitude := Some lo,
                           occupancy := numberIfTruthy (getProp raw ''occupancy'') \<rparr>"
        using x y Position by (rule normalizeMessage_position)
      have "numberIfTruthy (getProp raw ''occupancy'') = Some n"
        using assms unfolding e by simp
      then obtain occ where "getProp raw ''occupancy'' = Some occ" "truthy (Some occ)" "n = Number occ"
        by (cases "getProp raw ''occupancy''") (auto split: if_splits)
      then show ?thesis using x y Position unfolding e by simp
    qed
  qed
qed

lemmas number_defs = Number_def StringToNumber_def trim_def isStrWhiteSpaceChar_def
  unsignedDecimal_def isDecimalDigit_def exponentPart_def pow10_def toDouble_def

lemma Number_samples:
  "Number (Text ''abc'') = NaN"
  "Number (Text ''9'') = Fin 9"
  "Number (Text ''3'') = Fin 3"
  "Number (Text ''-30'') = Fin (- 30)"
  "Number (Text ''155000'') = Fin 155000"
  "Number (Text ''463000'') = Fin 463000"
  "Number (Text ''999999'') = Fin 999999"
  by (simp_all add: number_defs)

lemma normalizeKeys_samples:
  "normalizeKeys msgBadPunctuality = msgBadPunctuality"
  "normalizeKeys msgOccupancyOnly = msgOccupancyOnly"
  "normalizeKeys msgOutside =
     sampleMessage [(''punctuality'', Text ''-30''), (''rd_x'', Text ''999999''),
                    (''rd_y'', Text ''999999''), (''occupancy'', Text ''3'')]"
  "normalizeKeys msgCrowded =
     sampleMessage [(''rd_x'', Text ''155000''), (''rd_y'', Text ''463000''),
                    (''occupancy'', Text ''9'')]"
  by (simp_all add: msgBadPunctuality_def msgOccupancyOnly_def msgOutside_def msgCrowded_def
      sampleMessage_def fromEntries_def replaceDash_def)

lemma someXml_not_blank: "trim someXml \<noteq> []"
proof -
  have "CHR ''<'' \<in> set someXml" by (simp add: someXml_def)
  moreover have "\<not> isStrWhiteSpaceChar (CHR ''<'')" by (simp add: isStrWhiteSpaceChar_def)
  ultimately show ?thesis by (auto simp add: trim_eq_Nil)
qed

lemma kv6Of_envelope: "kv6Of (envelope ty msg) = Some (Obj [(typeName ty, msg)])"
  by (simp add: kv6Of_def envelope_def)

lemma single_sampleMessage:
  "truthy (Some (sampleMessage extra))" "messagesOf (sampleMessage extra) = [sampleMessage extra]"
  by (simp_all add: sampleMessage_def)

lemmas single_samples =
  single_sampleMessage [of "[(''punctuality'', Text ''abc'')]", folded msgBadPunctuality_def]
  single_sampleMessage [of "[(''occupancy'', Text ''3'')]", folded msgOccupancyOnly_def]
  single_sampleMessage [of "[(''punctuality'', Text ''-30''), (''rd-x'', Text ''999999''),
                    (''rd-y'', Text ''999999''), (''occupancy'', Text ''3'')]", folded msgOutside_def]
  single_sampleMessage [of "[(''rd-x'', Text ''155000''), (''rd-y'', Text ''463000''),
                    (''occupancy'', Text ''9'')]", folded msgCrowded_def]


lemma eventsOfParsed_envelope:
  "truthy (Some msg) \<Longrightarrow> messagesOf msg = [msg] \<Longrightarrow>
   eventsOfParsed conv (envelope ty msg) op = [normalizeMessage conv (normalizeKeys msg) ty op]"
  by (cases ty) (simp_all add: eventsOfParsed_def kv6Of_envelope eventsOfType_def
      KV6MessageType_values_def)

lemma parseXml_envelope:
  "truthy (Some msg) \<Longrightarrow> messagesOf msg = [msg] \<Longrightarrow>
   parseXml (parserReturning (envelope ty msg)) conv someXml op =
     [normalizeMessage conv (normalizeKeys msg) ty op]"
  using parseXml_parsed [OF someXml_not_blank, of "parserReturning (envelope ty msg)" "envelope ty msg" conv op]
  by (simp add: parserReturning_def eventsOfParsed_envelope)




lemma originTransformer_origin:
  "originTransformer (Fin 155000) (Fin 463000) =
     Position (Fin (5215517440 / 100000000)) (Fin (538720621 / 100000000))"
  by (simp add: originTransformer_def)


lemma getProp_msgCrowded:
  "getProp (normalizeKeys msgCrowded) ''rd_x'' = Some (Text ''155000'')"
  "getProp (normalizeKeys msgCrowded) ''rd_y'' = Some (Text ''463000'')"
  "getProp (normalizeKeys msgCrowded) ''occupancy'' = Some (Text ''9'')"
  "getProp (normalizeKeys msgCrowded) ''vehiclenumber'' = Some (Text ''101'')"
  by (simp_all add: normalizeKeys_samples sampleMessage_def)


lemma event_msgCrowded:
  "normalizeMessage originTransformer (normalizeKeys msgCrowded) ARRIVAL ''ARR'' =
     (baseOf (normalizeKeys msgCrowded) ARRIVAL ''ARR'')
       \<lparr> latitude := Some (Fin (5215517440 / 100000000)),
         longitude := Some (Fin (538720621 / 100000000)),
         occupancy := Some (Fin 9) \<rparr>"
  using normalizeMessage_position [where conv = originTransformer, OF getProp_msgCrowded(1,2)]
  by (simp add: Number_samples originTransformer_origin getProp_msgCrowded)

lemma stored_status_occupancy:
  assumes "vehicleNumber upd = Some (Text v)" and "v \<noteq> []"
  shows "\<exists>s. map_of (updateVehicle vehicles upd) (Text v) = Some s \<and> status s = type upd \<and>
           st_occupancy s =
             (case occupancy upd of
                Some n \<Rightarrow> Some n
              | None \<Rightarrow> (case map_of vehicles (Text v) of
                           Some old \<Rightarrow> st_occupancy old
                         | None \<Rightarrow> None))"
  using assms
  by (simp add: updateVehicle_def update_conv' mergeState_def definedOrStored_def seedState_def
      Let_def split: option.splits)

lemma others_unchanged:
  assumes "vehicleNumber upd = Some (Text v)" and "k \<noteq> Text v"
  shows "map_of (updateVehicle vehicles upd) k = map_of vehicles k"
  using assms by (simp add: updateVehicle_def update_conv' Let_def)

lemma no_id_unchanged:
  "\<not> truthy (vehicleNumber upd) \<Longrightarrow> updateVehicle vehicles upd = vehicles"
  by (cases "vehicleNumber upd") (simp_all add: updateVehicle_def)

lemma values_nine: "length KV6MessageType_values = 9" "distinct KV6MessageType_values"
  by (simp_all add: KV6MessageType_values_def)







text \<open>
  C8, as stated: the occupancy of every emitted event and of every stored state lies in
  \<open>[0,5]\<close> when present. This fails: a message at the projection's origin with the
  occupancy \<open>9\<close> is emitted with the occupancy \<open>9\<close>, and the store keeps it.
\<close>

theorem occupancy_range_counterexample:
  "map occupancy (eventsOfParsed originTransformer (envelope ARRIVAL msgCrowded) ''ARR'') =
     [Some (Fin 9)] \<and>
   \<not> spec_occupancyInRange (Some (Fin 9)) \<and>
   map (\<lambda>entry. st_occupancy (snd entry))
     (foldl updateVehicle [] (eventsOfParsed originTransformer (envelope ARRIVAL msgCrowded) ''ARR'')) =
     [Some (Fin 9)]"
proof -
  let ?e = "normalizeMessage originTransformer (normalizeKeys msgCrowded) ARRIVAL ''ARR''"
  have ev: "eventsOfParsed originTransformer (envelope ARRIVAL msgCrowded) ''ARR'' = [?e]"
    using single_samples(7,8) by (rule eventsOfParsed_envelope)
  have occ: "occupancy ?e = Some (Fin 9)"
    by (simp add: event_msgCrowded)
  have vn: "vehicleNumber ?e = Some (Text ''101'')"
    by (simp add: event_msgCrowded baseOf_def getProp_msgCrowded)
  have "updateVehicle [] ?e = [(Text ''101'', mergeState (seedState (Text ''101'') ?e) ?e)]"
    using updateVehicle_fresh [OF vn, of "[]"] by simp
  moreover have "st_occupancy (mergeState (seedState (Text ''101'') ?e) ?e) = Some (Fin 9)"
    by (simp add: mergeState_def definedOrStored_def occ)
  ultimately show ?thesis
    by (simp add: ev occ)
qed

text \<open>
  C8, amended: the type of every emitted event is the event type under whose tag its
  element stands in the payload, one of the nine event types, and after an update whose
  vehicle number is a non-empty text the stored status of that vehicle is the type of the
  event, the other vehicles being unchanged. The occupancy of an emitted event, when
  present, is the number that the non-empty occupancy text of its message coerces to,
  whatever its range; an update whose vehicle number is a non-empty text stores the
  occupancy of the event when it carries one and keeps the stored one otherwise. An update
  without a vehicle number leaves the store unchanged.
\<close>

theorem event_type_and_occupancy:
  "(\<forall>e \<in> set (parseXml xmlParser conv xmlContent op).
      type e \<in> set KV6MessageType_values \<and>
      (\<exists>parsed msg.
         xmlParser xmlContent = Inr (Some parsed) \<and> isConvertedMessage parsed (type e) msg \<and>
         e = normalizeMessage conv (normalizeKeys msg) (type e) op \<and>
         (\<forall>n. occupancy e = Some n \<longrightarrow>
            (\<exists>occ. getProp (normalizeKeys msg) ''occupancy'' = Some occ \<and> truthy (Some occ) \<and>
               n = Number occ)))) \<and>
   length KV6MessageType_values = 9 \<and> distinct KV6MessageType_values \<and>
   (\<forall>v. vehicleNumber upd = Some (Text v) \<and> v \<noteq> [] \<longrightarrow>
      (\<exists>s. map_of (updateVehicle vehicles upd) (Text v) = Some s \<and> status s = type upd \<and>
         st_occupancy s =
           (case occupancy upd of
              Some n \<Rightarrow> Some n
            | None \<Rightarrow> (case map_of vehicles (Text v) of
                         Some old \<Rightarrow> st_occupancy old
                       | None \<Rightarrow> None))) \<and>
      (\<forall>k. k \<noteq> Text v \<longrightarrow> map_of (updateVehicle vehicles upd) k = map_of vehicles k)) \<and>
   (\<not> truthy (vehicleNumber upd0) \<longrightarrow> updateVehicle vehicles0 upd0 = vehicles0)"
proof (intro conjI ballI allI impI)
  fix e :: KV6Update
  show "type e \<in> set KV6MessageType_values"
    by (simp add: set_KV6MessageType_values)
next
  fix e
  assume m: "e \<in> set (parseXml xmlParser conv xmlContent op)"
  from parseXml_origin [OF m] obtain parsed ty msg where
    p: "xmlParser xmlContent = Inr (Some parsed)" "isConvertedMessage parsed ty msg"
    and e: "e = normalizeMessage conv (normalizeKeys msg) ty op"
    by blast
  have ty: "type e = ty"
    unfolding e by (rule normalizeMessage_type)
  have occ: "\<forall>n. occupancy e = Some n \<longrightarrow>
            (\<exists>occ. getProp (normalizeKeys msg) ''occupancy'' = Some occ \<and> truthy (Some occ) \<and>
               n = Number occ)"
  proof (intro allI impI)
    fix n
    assume "occupancy e = Some n"
    then have "occupancy (normalizeMessage conv (normalizeKeys msg) ty op) = Some n"
      by (simp add: e)
    from normalizeMessage_occupancy [OF this]
    show "\<exists>occ. getProp (normalizeKeys msg) ''occupancy'' = Some occ \<and> truthy (Some occ) \<and>
               n = Number occ"
      by blast
  qed
  show "\<exists>parsed msg.
         xmlParser xmlContent = Inr (Some parsed) \<and> isConvertedMessage parsed (type e) msg \<and>
         e = normalizeMessage conv (normalizeKeys msg) (type e) op \<and>
         (\<forall>n. occupancy e = Some n \<longrightarrow>
            (\<exists>occ. getProp (normalizeKeys msg) ''occupancy'' = Some occ \<and> truthy (Some occ) \<and>
               n = Number occ))"
    using p e occ unfolding ty
    by - (rule exI [of _ parsed], rule exI [of _ msg], intro conjI; assumption)
next
  show "length KV6MessageType_values = 9" by (rule values_nine)
next
  show "distinct KV6MessageType_values" by (rule values_nine)
next
  fix v
  assume "vehicleNumber upd = Some (Text v) \<and> v \<noteq> []"
  then show "\<exists>s. map_of (updateVehicle vehicles upd) (Text v) = Some s \<and> status s = type upd \<and>
         st_occupancy s =
           (case occupancy upd of
              Some n \<Rightarrow> Some n
            | None \<Rightarrow> (case map_of vehicles (Text v) of
                         Some old \<Rightarrow> st_occupancy old
                       | None \<Rightarrow> None))"
    using stored_status_occupancy [of upd v vehicles] by simp
next
  fix v k
  assume "vehicleNumber upd = Some (Text v) \<and> v \<noteq> []" and "k \<noteq> Text v"
  then show "map_of (updateVehicle vehicles upd) k = map_of vehicles k"
    using others_unchanged [of upd v k vehicles] by simp
next
  assume "\<not> truthy (vehicleNumber upd0)"
  then show "updateVehicle vehicles0 upd0 = vehicles0"
    by (rule no_id_unchanged)
qed

theorem event_type_and_occupancy_witness:
  "normalizeMessage originTransformer (normalizeKeys msgCrowded) ARRIVAL ''ARR''
     \<in> set (parseXml (parserReturning (envelope ARRIVAL msgCrowded)) originTransformer someXml ''ARR'') \<and>
   type (normalizeMessage originTransformer (normalizeKeys msgCrowded) ARRIVAL ''ARR'')
     \<in> set KV6MessageType_values \<and>
   occupancy (normalizeMessage originTransformer (normalizeKeys msgCrowded) ARRIVAL ''ARR'') =
     Some (Fin 9) \<and>
   vehicleNumber (normalizeMessage originTransformer (normalizeKeys msgCrowded) ARRIVAL ''ARR'') =
     Some (Text ''101'') \<and>
   (\<exists>s. map_of (updateVehicle []
          (normalizeMessage originTransformer (normalizeKeys msgCrowded) ARRIVAL ''ARR''))
        (Text ''101'') = Some s \<and>
      status s = ARRIVAL \<and> st_occupancy s = Some (Fin 9)) \<and>
   \<not> truthy (vehicleNumber eventNoId) \<and> occupancy eventNoId = Some (Fin 3) \<and>
   updateVehicle fourVehicles eventNoId = fourVehicles"
proof -
  let ?e = "normalizeMessage originTransformer (normalizeKeys msgCrowded) ARRIVAL ''ARR''"
  note t = event_type_and_occupancy [where xmlParser = "parserReturning (envelope ARRIVAL msgCrowded)"
      and conv = originTransformer and xmlContent = someXml and op = "''ARR''"
      and vehicles = "[]" and upd = ?e and ?upd0.0 = eventNoId and ?vehicles0.0 = fourVehicles]
  have m: "?e \<in> set (parseXml (parserReturning (envelope ARRIVAL msgCrowded)) originTransformer someXml ''ARR'')"
    using parseXml_envelope [OF single_samples(7,8), of ARRIVAL originTransformer "''ARR''"] by simp
  have ty: "type ?e \<in> set KV6MessageType_values"
    using bspec [OF conjunct1 [OF t] m] by (rule conjunct1)
  have occ: "occupancy ?e = Some (Fin 9)"
    by (simp add: event_msgCrowded)
  have vn: "vehicleNumber ?e = Some (Text ''101'')"
    by (simp add: event_msgCrowded baseOf_def getProp_msgCrowded)
  have te: "type ?e = ARRIVAL"
    by (rule normalizeMessage_type)
  note t4 = conjunct1 [OF conjunct2 [OF conjunct2 [OF conjunct2 [OF t]]]]
  have st: "\<exists>s. map_of (updateVehicle [] ?e) (Text ''101'') = Some s \<and>
      status s = ARRIVAL \<and> st_occupancy s = Some (Fin 9)"
    using spec [OF t4, of "''101''"] vn by (simp add: occ te)
  have n1: "\<not> truthy (vehicleNumber eventNoId)" and n2: "occupancy eventNoId = Some (Fin 3)"
    by (simp_all add: eventNoId_def sampleEvent_def)
  have n3: "updateVehicle fourVehicles eventNoId = fourVehicles"
    using conjunct2 [OF conjunct2 [OF conjunct2 [OF conjunct2 [OF t]]]] n1 by simp
  show ?thesis
    by (intro conjI m ty occ vn st n1 n2 n3)
qed

text \<open>
  C10: on every event that \<open>parseXml\<close> returns, latitude and longitude are both present or
  both absent, and the occupancy is present only when both planar coordinates were on the
  message and the transformer answered with a position; an event whose message has no
  planar coordinates carries no occupancy, latitude or longitude.
\<close>

theorem parseXml_position_fields:
  "\<forall>e \<in> set (parseXml xmlParser conv xmlContent op).
     (latitude e = None \<longleftrightarrow> longitude e = None) \<and>
     (\<exists>parsed ty msg.
        xmlParser xmlContent = Inr (Some parsed) \<and> isConvertedMessage parsed ty msg \<and>
        e = normalizeMessage conv (normalizeKeys msg) ty op \<and>
        (occupancy e \<noteq> None \<longrightarrow>
           (\<exists>x y la lo. getProp (normalizeKeys msg) ''rd_x'' = Some x \<and>
              getProp (normalizeKeys msg) ''rd_y'' = Some y \<and>
              conv (Number x) (Number y) = Position la lo \<and>
              latitude e = Some la \<and> longitude e = Some lo)) \<and>
        (getProp (normalizeKeys msg) ''rd_x'' = None \<or> getProp (normalizeKeys msg) ''rd_y'' = None \<longrightarrow>
           occupancy e = None \<and> latitude e = None \<and> longitude e = None))"
proof
  fix e
  assume "e \<in> set (parseXml xmlParser conv xmlContent op)"
  then obtain parsed ty msg where
    p: "xmlParser xmlContent = Inr (Some parsed)" "isConvertedMessage parsed ty msg"
    and e: "e = normalizeMessage conv (normalizeKeys msg) ty op"
    using parseXml_origin by blast
  have ll: "latitude e = None \<longleftrightarrow> longitude e = None"
    unfolding e by (rule normalizeMessage_lat_lon)
  have occ: "occupancy e \<noteq> None \<longrightarrow>
           (\<exists>x y la lo. getProp (normalizeKeys msg) ''rd_x'' = Some x \<and>
              getProp (normalizeKeys msg) ''rd_y'' = Some y \<and>
              conv (Number x) (Number y) = Position la lo \<and>
              latitude e = Some la \<and> longitude e = Some lo)"
  proof
    assume "occupancy e \<noteq> None"
    then obtain n where "occupancy (normalizeMessage conv (normalizeKeys msg) ty op) = Some n"
      unfolding e by blast
    from normalizeMessage_occupancy [OF this]
    show "\<exists>x y la lo. getProp (normalizeKeys msg) ''rd_x'' = Some x \<and>
              getProp (normalizeKeys msg) ''rd_y'' = Some y \<and>
              conv (Number x) (Number y) = Position la lo \<and>
              latitude e = Some la \<and> longitude e = Some lo"
      unfolding e by blast
  qed
  have none: "getProp (normalizeKeys msg) ''rd_x'' = None \<or> getProp (normalizeKeys msg) ''rd_y'' = None \<longrightarrow>
           occupancy e = None \<and> latitude e = None \<and> longitude e = None"
    unfolding e by (auto simp add: normalizeMessage_no_position baseOf_def)
  show "(latitude e = None \<longleftrightarrow> longitude e = None) \<and>
     (\<exists>parsed ty msg.
        xmlParser xmlContent = Inr (Some parsed) \<and> isConvertedMessage parsed ty msg \<and>
        e = normalizeMessage conv (normalizeKeys msg) ty op \<and>
        (occupancy e \<noteq> None \<longrightarrow>
           (\<exists>x y la lo. getProp (normalizeKeys msg) ''rd_x'' = Some x \<and>
              getProp (normalizeKeys msg) ''rd_y'' = Some y \<and>
              conv (Number x) (Number y) = Position la lo \<and>
              latitude e = Some la \<and> longitude e = Some lo)) \<and>
        (getProp (normalizeKeys msg) ''rd_x'' = None \<or> getProp (normalizeKeys msg) ''rd_y'' = None \<longrightarrow>
           occupancy e = None \<and> latitude e = None \<and> longitude e = None))"
    using p e occ none
    by - (rule conjI [OF ll], rule exI, rule exI, rule exI, intro conjI; assumption)
qed

theorem parseXml_position_fields_witness:
  "parseXml (parserReturning (envelope ONROUTE msgOccupancyOnly)) originTransformer someXml ''ARR'' =
     [normalizeMessage originTransformer msgOccupancyOnly ONROUTE ''ARR''] \<and>
   getProp msgOccupancyOnly ''occupancy'' = Some (Text ''3'') \<and>
   getProp msgOccupancyOnly ''rd_x'' = None \<and>
   (latitude (normalizeMessage originTransformer msgOccupancyOnly ONROUTE ''ARR'') = None \<longleftrightarrow>
    longitude (normalizeMessage originTransformer msgOccupancyOnly ONROUTE ''ARR'') = None) \<and>
   occupancy (normalizeMessage originTransformer msgOccupancyOnly ONROUTE ''ARR'') = None"
proof -
  let ?e = "normalizeMessage originTransformer msgOccupancyOnly ONROUTE ''ARR''"
  have run: "parseXml (parserReturning (envelope ONROUTE msgOccupancyOnly)) originTransformer someXml ''ARR'' = [?e]"
    using parseXml_envelope [OF single_samples(3,4), of ONROUTE originTransformer "''ARR''"]
    by (simp add: normalizeKeys_samples)
  have g: "getProp msgOccupancyOnly ''occupancy'' = Some (Text ''3'')"
    "getProp msgOccupancyOnly ''rd_x'' = None"
    by (simp_all add: msgOccupancyOnly_def sampleMessage_def)
  have "?e \<in> set (parseXml (parserReturning (envelope ONROUTE msgOccupancyOnly)) originTransformer someXml ''ARR'')"
    by (simp add: run)
  from bspec [OF parseXml_position_fields this]
  have ll: "latitude ?e = None \<longleftrightarrow> longitude ?e = None" by blast
  have "occupancy ?e = None"
    using g by (simp add: normalizeMessage_no_position baseOf_def)
  then show ?thesis using run g ll by simp
qed

section \<open>Order of the parsed events\<close>





















section \<open>The fallback stage of the decoder\<close>

lemma earliest_None_iff:
  "spec_earliestMarkerFrom s i = None \<longleftrightarrow>
     (indexFrom ''<?xml'' s a < 0 \<and> indexFrom ''<VV_TM_PUSH'' s b < 0 \<and>
      indexFrom ''<KV6posinfo'' s c < 0)"
proof (induction s arbitrary: i a b c)
  case Nil
  show ?case by simp
next
  case (Cons x s)
  show ?case
    using Cons.IH [of "Suc i" "Suc a" "Suc b" "Suc c"]
    by (simp add: markers_def)
qed

lemma earliest_None_looksLikeXml:
  "spec_earliestMarker s = None \<longleftrightarrow> \<not> looksLikeXml s"
  using earliest_None_iff [of s 0 0 0 0]
  by (auto simp add: spec_earliestMarker_def looksLikeXml_def includes_str_def indexOf_def)

lemma fallbackExtract_no_marker:
  "\<not> looksLikeXml (latin1 buf) \<Longrightarrow> fallbackExtract buf = latin1 buf"
  by (auto simp add: fallbackExtract_def looksLikeXml_def includes_str_def Let_def)

lemma reachesFallback_no_marker:
  "reachesFallback rt buf \<Longrightarrow> \<not> looksLikeXml (latin1 buf)"
  by (auto simp add: reachesFallback_def tryEncodings_def split: if_splits)

lemma reachesFallback_decodeContent:
  "reachesFallback rt buf \<Longrightarrow> decodeContent rt buf = Inr (fallbackExtract buf)"
  by (simp add: reachesFallback_def decodeContent_def decodeContentBody_def)

text \<open>
  A buffer gets to the scan of the single-byte text only when that text contains none of
  the markers, and the decoder then returns the whole text.
\<close>

lemma fallback_reached_without_marker:
  assumes "reachesFallback rt buf"
  shows "spec_earliestMarker (latin1 buf) = None \<and> decodeContent rt buf = Inr (latin1 buf)"
  using assms
  by (simp add: earliest_None_looksLikeXml reachesFallback_no_marker
      reachesFallback_decodeContent fallbackExtract_no_marker)

section \<open>Properties of the event distributor and the streaming sink\<close>

lemma callListeners_append:
  "callListeners (pre @ post) d w =
     (case callListeners pre d w of
        (w', Some e) \<Rightarrow> (w', Some e)
      | (w', None) \<Rightarrow> callListeners post d w')"
  by (induction pre arbitrary: w) (auto split: prod.splits option.splits)

lemma callListeners_recording:
  "callListeners (map recording ids) d w = (w @ map (\<lambda>i. (i, d)) ids, None)"
  by (induction ids arbitrary: w) (simp_all add: recording_def)

lemma callListeners_noneRaises:
  "noneRaises ls d w \<Longrightarrow> callListeners ls d w = (deliverAll ls d w, None)"
proof (induction ls arbitrary: w)
  case Nil
  show ?case by (simp add: deliverAll_def)
next
  case (Cons l ls)
  then have "callListeners ls d (fst (l d w)) = (deliverAll ls d (fst (l d w)), None)"
    by simp
  then show ?case
    using Cons.prems by (cases "l d w") (simp add: deliverAll_def)
qed

lemma callListeners_first_raise:
  assumes "noneRaises pre d w" and "snd (l d (deliverAll pre d w)) = Some e"
  shows "callListeners (pre @ l # post) d w = (fst (l d (deliverAll pre d w)), Some e)"
  using assms
  by (cases "l d (deliverAll pre d w)") (simp add: callListeners_append callListeners_noneRaises)

lemma writeChunks_eq:
  "writeChunks c chunks written =
     (written @ map (Pair (clientId c)) (takeWhile (accepts c) chunks), list_all (accepts c) chunks)"
  by (induction chunks arbitrary: written) simp_all

lemma sendToAll_eq:
  "sendToAll cs message written =
     (written @ concat (map (\<lambda>c. map (Pair (clientId c)) (takeWhile (accepts c) (chunksOf message))) cs),
      map clientId (filter (\<lambda>c. \<not> list_all (accepts c) (chunksOf message)) cs))"
  by (induction cs arbitrary: written) (simp_all add: writeChunks_eq)

lemma filter_by_id:
  assumes "distinct (map clientId cs)"
  shows "filter (\<lambda>c. clientId c \<notin> clientId ` {c \<in> set cs. \<not> P c}) cs = filter P cs"
proof (rule filter_cong [OF refl])
  fix c
  assume c: "c \<in> set cs"
  have "clientId c \<in> clientId ` {c \<in> set cs. \<not> P c} \<longleftrightarrow> \<not> P c"
  proof
    assume "clientId c \<in> clientId ` {c \<in> set cs. \<not> P c}"
    then obtain c' where c': "c' \<in> set cs" "\<not> P c'" "clientId c' = clientId c" by auto
    then have "c' = c"
      using assms c by (meson distinct_map inj_onD)
    then show "\<not> P c" using c' by simp
  next
    assume "\<not> P c"
    then show "clientId c \<in> clientId ` {c \<in> set cs. \<not> P c}" using c by blast
  qed
  then show "(clientId c \<notin> clientId ` {c \<in> set cs. \<not> P c}) = P c" by blast
qed

lemma broadcastSSE_eq:
  assumes "distinct (map clientId sseClients)"
  shows "broadcastSSE sseClients message written =
     (filter (\<lambda>c. list_all (accepts c) (chunksOf message)) sseClients,
      written @ concat (map (\<lambda>c. map (Pair (clientId c)) (takeWhile (accepts c) (chunksOf message)))
                           sseClients))"
proof (cases "sseClients = []")
  case True
  then show ?thesis by (simp add: broadcastSSE_def)
next
  case False
  then show ?thesis
    using filter_by_id [OF assms, of "\<lambda>c. list_all (accepts c) (chunksOf message)"]
    by (simp add: broadcastSSE_def sendToAll_eq)
qed

text \<open>
  C5, as stated: when a subscriber raises during a publish, the subscribers registered
  after it still receive the event and the publish call does not propagate the exception.
  This fails for \<open>emit\<close>: with a raising subscriber registered before a second one, the
  second one is not called and \<open>emit\<close> ends with the exception.
\<close>

theorem emit_stops_counterexample:
  "emit [raising 1 (Exn ''subscriber failed''), recording 2] eventA [] =
     ([(1, eventA)], Inl (Exn ''subscriber failed''))"
  by (simp add: emit_def raising_def recording_def)

text \<open>
  C5, amended: \<open>emit\<close> calls the subscribers in registration order; when one raises, the
  subscribers after it are not called and \<open>emit\<close> ends with that exception; when none
  raises, every subscriber receives the event, whatever the subscribers are, and \<open>emit\<close>
  returns. Failures are isolated
  per receiver in \<open>broadcastSSE\<close> only: every streaming client is written up to its own
  first failing write, whatever the other clients do, the clients with a failing write
  are dropped from the client set, and \<open>broadcastSSE\<close> raises nothing.
\<close>

theorem emit_and_broadcast:
  "(noneRaises pre d w \<and> snd (l d (deliverAll pre d w)) = Some e \<longrightarrow>
      emit (pre @ l # post) d w = (fst (l d (deliverAll pre d w)), Inl e)) \<and>
   (noneRaises ls d1 w1 \<longrightarrow> emit ls d1 w1 = (deliverAll ls d1 w1, Inr (ls \<noteq> []))) \<and>
   emit (map recording ids) d0 w0 = (w0 @ map (\<lambda>i. (i, d0)) ids, Inr (ids \<noteq> [])) \<and>
   (distinct (map clientId sseClients) \<longrightarrow>
      broadcastSSE sseClients message written =
        (filter (\<lambda>c. list_all (accepts c) (chunksOf message)) sseClients,
         written @ concat (map (\<lambda>c. map (Pair (clientId c))
                                      (takeWhile (accepts c) (chunksOf message))) sseClients)))"
proof (intro conjI impI)
  assume "noneRaises pre d w \<and> snd (l d (deliverAll pre d w)) = Some e"
  then show "emit (pre @ l # post) d w = (fst (l d (deliverAll pre d w)), Inl e)"
    by (simp add: emit_def callListeners_first_raise)
next
  assume "noneRaises ls d1 w1"
  then show "emit ls d1 w1 = (deliverAll ls d1 w1, Inr (ls \<noteq> []))"
    by (simp add: emit_def callListeners_noneRaises)
next
  show "emit (map recording ids) d0 w0 = (w0 @ map (\<lambda>i. (i, d0)) ids, Inr (ids \<noteq> []))"
    by (simp add: emit_def callListeners_recording)
next
  assume "distinct (map clientId sseClients)"
  then show "broadcastSSE sseClients message written =
        (filter (\<lambda>c. list_all (accepts c) (chunksOf message)) sseClients,
         written @ concat (map (\<lambda>c. map (Pair (clientId c))
                                      (takeWhile (accepts c) (chunksOf message))) sseClients))"
    by (rule broadcastSSE_eq)
qed

theorem emit_and_broadcast_witness:
  "noneRaises [recording 1] eventA [] \<and>
   snd (raising 2 (Exn ''subscriber failed'') eventA (deliverAll [recording 1] eventA [])) =
     Some (Exn ''subscriber failed'') \<and>
   emit ([recording 1] @ raising 2 (Exn ''subscriber failed'') # [recording 3]) eventA [] =
     ([(1, eventA), (2, eventA)], Inl (Exn ''subscriber failed'')) \<and>
   noneRaises [recording 1, recording 3] eventA [] \<and>
   emit [recording 1, recording 3] eventA [] = ([(1, eventA), (3, eventA)], Inr True) \<and>
   distinct (map clientId [goodClient 1, brokenClient 2, goodClient 3]) \<and>
   broadcastSSE [goodClient 1, brokenClient 2, goodClient 3] statusMessage [] =
     ([goodClient 1, goodClient 3],
      [(1, eventLine ''status_update''), (1, dataLine ''{}''),
       (3, eventLine ''status_update''), (3, dataLine ''{}'')])"
proof -
  have a: "noneRaises [recording 1] eventA []"
    by (simp add: recording_def)
  have da: "deliverAll [recording 1] eventA [] = [(1, eventA)]"
    by (simp add: deliverAll_def recording_def)
  have b: "snd (raising 2 (Exn ''subscriber failed'') eventA (deliverAll [recording 1] eventA [])) =
     Some (Exn ''subscriber failed'')"
    by (simp add: raising_def)
  have a2: "noneRaises [recording 1, recording 3] eventA []"
    by (simp add: recording_def)
  note t = emit_and_broadcast [where pre = "[recording 1]" and d = eventA and w = "[]"
      and l = "raising 2 (Exn ''subscriber failed'')" and e = "Exn ''subscriber failed''"
      and post = "[recording 3]"
      and ls = "[recording 1, recording 3]" and ?d1.0 = eventA and ?w1.0 = "[]"
      and sseClients = "[goodClient 1, brokenClient 2, goodClient 3]"
      and message = statusMessage and written = "[]"]
  have "emit ([recording 1] @ raising 2 (Exn ''subscriber failed'') # [recording 3]) eventA [] =
     (fst (raising 2 (Exn ''subscriber failed'') eventA (deliverAll [recording 1] eventA [])),
      Inl (Exn ''subscriber failed''))"
    using conjunct1 [OF t] a b by blast
  then have c: "emit ([recording 1] @ raising 2 (Exn ''subscriber failed'') # [recording 3]) eventA [] =
     ([(1, eventA), (2, eventA)], Inl (Exn ''subscriber failed''))"
    unfolding da by (simp add: raising_def)
  have c2: "emit [recording 1, recording 3] eventA [] = ([(1, eventA), (3, eventA)], Inr True)"
    using mp [OF conjunct1 [OF conjunct2 [OF t]] a2]
    by (simp add: deliverAll_def recording_def)
  have d: "distinct (map clientId [goodClient 1, brokenClient 2, goodClient 3])"
    by (simp add: goodClient_def brokenClient_def)
  have "broadcastSSE [goodClient 1, brokenClient 2, goodClient 3] statusMessage [] =
        (filter (\<lambda>c. list_all (accepts c) (chunksOf statusMessage))
           [goodClient 1, brokenClient 2, goodClient 3],
         [] @ concat (map (\<lambda>c. map (Pair (clientId c))
                                      (takeWhile (accepts c) (chunksOf statusMessage)))
                        [goodClient 1, brokenClient 2, goodClient 3]))"
    using conjunct2 [OF conjunct2 [OF conjunct2 [OF t]]] d by blast
  also have "\<dots> = ([goodClient 1, goodClient 3],
      [(1, eventLine ''status_update''), (1, dataLine ''{}''),
       (3, eventLine ''status_update''), (3, dataLine ''{}'')])"
    by (simp add: goodClient_def brokenClient_def statusMessage_def chunksOf_def)
  finally have f: "broadcastSSE [goodClient 1, brokenClient 2, goodClient 3] statusMessage [] =
     ([goodClient 1, goodClient 3],
      [(1, eventLine ''status_update''), (1, dataLine ''{}''),
       (3, eventLine ''status_update''), (3, dataLine ''{}'')])" .
  show ?thesis
    by (intro conjI a b c a2 c2 d f)
qed

end
